theory Spec2Isabelle
  imports Complex_Main
begin

section \<open>JavaScript values\<close>

text \<open>
  Numbers are the finite rationals (every finite double is one; \<open>+0\<close> and \<open>-0\<close> are
  identified, as \<open>===\<close> identifies them) together with \<open>NaN\<close>. Objects and arrays
  live in a heap and are referred to by address, so that identity and in-place mutation
  are visible. An array hole is stored as \<open>Undefined\<close>.
\<close>

datatype jsnum = Fin rat | NaN

datatype jsval =
    Undefined
  | Null
  | Bool bool
  | Num jsnum
  | Str string
  | Ref nat

datatype jsobj =
    Arr "jsval list"
  | Obj "(string \<times> jsval) list"

datatype error = TypeError

text \<open>\<open>typeof v == 'object'\<close>: true for \<open>null\<close>, objects and arrays.\<close>

fun typeof_object :: "jsval \<Rightarrow> bool" where
  "typeof_object Null = True"
| "typeof_object (Ref r) = True"
| "typeof_object v = False"

text \<open>The strict equality \<open>a === b\<close>.\<close>

fun strict_eq :: "jsval \<Rightarrow> jsval \<Rightarrow> bool" where
  "strict_eq Undefined Undefined = True"
| "strict_eq Null Null = True"
| "strict_eq (Bool a) (Bool b) = (a = b)"
| "strict_eq (Num (Fin a)) (Num (Fin b)) = (a = b)"
| "strict_eq (Str a) (Str b) = (a = b)"
| "strict_eq (Ref a) (Ref b) = (a = b)"
| "strict_eq a b = False"


text \<open>Truthiness, as \<open>if (v)\<close> and \<open>!v\<close> see it.\<close>

fun truthy :: "jsval \<Rightarrow> bool" where
  "truthy Undefined = False"
| "truthy Null = False"
| "truthy (Bool b) = b"
| "truthy (Num NaN) = False"
| "truthy (Num (Fin q)) = (q \<noteq> 0)"
| "truthy (Str s) = (s \<noteq> [])"
| "truthy (Ref r) = True"

section \<open>property-accessors.js: the change predicate\<close>

text \<open>
  \<open>_shouldPropChange(property, value, old)\<close>:
  \<open>(old !== value && (old === old || value === value)) || typeof value == 'object'\<close>.
\<close>

definition shouldPropChange :: "string \<Rightarrow> jsval \<Rightarrow> jsval \<Rightarrow> bool" where
  "shouldPropChange property val old =
     ((\<not> strict_eq old val \<and> (strict_eq old old \<or> strict_eq val val))
      \<or> typeof_object val)"

section \<open>Objects used as maps, and the heap\<close>

text \<open>
  A plain JavaScript object used as a dictionary (\<open>__data\<close>, \<open>__dataPending\<close>,
  \<open>__dataOld\<close>, the bags handed to \<open>_propertiesChanged\<close>) is an association list in
  insertion order, the order in which \<open>for (k in obj)\<close> enumerates string keys.
  \<open>pget\<close> is \<open>obj[k]\<close>, \<open>pin\<close> is \<open>k in obj\<close>, \<open>pset\<close> is \<open>obj[k] = v\<close>.
\<close>

type_synonym props = "(string \<times> jsval) list"

definition pget :: "props \<Rightarrow> string \<Rightarrow> jsval" where
  "pget ps k = (case map_of ps k of None \<Rightarrow> Undefined | Some v \<Rightarrow> v)"

definition pin :: "string \<Rightarrow> props \<Rightarrow> bool" where
  "pin k ps = (map_of ps k \<noteq> None)"

fun pset :: "props \<Rightarrow> string \<Rightarrow> jsval \<Rightarrow> props" where
  "pset [] k v = [(k, v)]"
| "pset ((k', v') # ps) k v = (if k' = k then (k, v) # ps else (k', v') # pset ps k v)"

text \<open>
  utils.js, \<open>mixin(target, source)\<close>: \<open>for (var i in source) target[i] = source[i]\<close>.
  Enumerating \<open>null\<close> runs no iteration; assigning a property of \<open>null\<close> throws.
\<close>

fun mixin :: "props option \<Rightarrow> props option \<Rightarrow> error + props option" where
  "mixin target None = Inr target"
| "mixin target (Some []) = Inr target"
| "mixin None (Some (x # xs)) = Inl TypeError"
| "mixin (Some t) (Some (x # xs)) = Inr (Some (foldl (\<lambda>acc (k, v). pset acc k v) t (x # xs)))"

type_synonym heap = "nat \<Rightarrow> jsobj option"

text \<open>An array index is a canonical decimal numeral: \<open>0\<close>, \<open>7\<close>, \<open>12\<close>, not \<open>01\<close>.\<close>

definition is_digit :: "char \<Rightarrow> bool" where
  "is_digit c = (48 \<le> (of_char c :: nat) \<and> (of_char c :: nat) \<le> 57)"

definition parse_index :: "string \<Rightarrow> nat option" where
  "parse_index s =
     (if s = [] \<or> \<not> list_all is_digit s \<or> (hd s = CHR ''0'' \<and> length s > 1) then None
      else Some (foldl (\<lambda>n c. 10 * n + (of_char c - 48)) 0 s))"

text \<open>
  \<open>v[k]\<close> for a value that may be read from: own elements and \<open>length\<close> of an array,
  own keys of an object; a primitive has no own properties in this model.
\<close>

definition prop_read :: "heap \<Rightarrow> jsval \<Rightarrow> string \<Rightarrow> jsval" where
  "prop_read h v k =
     (case v of
        Ref r \<Rightarrow>
          (case h r of
             Some (Arr xs) \<Rightarrow>
               (if k = ''length'' then Num (Fin (of_nat (length xs)))
                else (case parse_index k of
                        Some i \<Rightarrow> (if i < length xs then xs ! i else Undefined)
                      | None \<Rightarrow> Undefined))
           | Some (Obj kvs) \<Rightarrow> pget kvs k
           | None \<Rightarrow> Undefined)
      | _ \<Rightarrow> Undefined)"

text \<open>
  \<open>v[k] = x\<close>: an object gains or updates the key; an array element is written, the
  array growing with holes when the index is past its end; other writes leave the heap
  as it is.
\<close>

definition prop_write :: "heap \<Rightarrow> jsval \<Rightarrow> string \<Rightarrow> jsval \<Rightarrow> heap" where
  "prop_write h v k x =
     (case v of
        Ref r \<Rightarrow>
          (case h r of
             Some (Arr xs) \<Rightarrow>
               (case parse_index k of
                  Some i \<Rightarrow>
                    (if i < length xs then h(r \<mapsto> Arr (xs[i := x]))
                     else h(r \<mapsto> Arr (xs @ replicate (i - length xs) Undefined @ [x])))
                | None \<Rightarrow> h)
           | Some (Obj kvs) \<Rightarrow> h(r \<mapsto> Obj (pset kvs k x))
           | None \<Rightarrow> h)
      | _ \<Rightarrow> h)"

section \<open>path.js\<close>

text \<open>
  Modelled from the spec: path.js is not among the sources; \<open>root\<close>, \<open>isDeep\<close>,
  \<open>isDescendant\<close>, \<open>matches\<close>, \<open>translate\<close>, \<open>get\<close> and \<open>set\<close> follow section 4.1
  of the specification. Paths are the normalized dotted strings.
\<close>

fun split_path :: "string \<Rightarrow> string list" where
  "split_path [] = [[]]"
| "split_path (c # cs) =
     (if c = CHR ''.'' then [] # split_path cs
      else (case split_path cs of [] \<Rightarrow> [[c]] | p # ps \<Rightarrow> (c # p) # ps))"

text \<open>Modelled from the spec: \<open>root(path)\<close>, the substring up to the first dot.\<close>

definition Path_root :: "string \<Rightarrow> string" where
  "Path_root p = takeWhile (\<lambda>c. c \<noteq> CHR ''.'') p"

text \<open>Modelled from the spec: \<open>isDeep(path)\<close>, the path contains a dot.\<close>

definition Path_isDeep :: "string \<Rightarrow> bool" where
  "Path_isDeep p = (CHR ''.'' \<in> set p)"

definition starts_with :: "string \<Rightarrow> string \<Rightarrow> bool" where
  "starts_with s pre = (take (length pre) s = pre)"

text \<open>
  Modelled from the spec: \<open>isDescendant(parent, candidate)\<close> is true iff the candidate
  equals the parent or starts with \<open>parent + '.'\<close>.
\<close>

definition Path_isDescendant :: "string \<Rightarrow> string \<Rightarrow> bool" where
  "Path_isDescendant parent candidate =
     (candidate = parent \<or> starts_with candidate (parent @ ''.''))"

definition is_wildcard :: "string \<Rightarrow> bool" where
  "is_wildcard p = (length p \<ge> 2 \<and> drop (length p - 2) p = ''.*'')"

definition wildcard_base :: "string \<Rightarrow> string" where
  "wildcard_base p = take (length p - 2) p"

text \<open>
  Modelled from the spec: \<open>matches(effectPath, concretePath)\<close> is true iff the two are
  equal, or the effect path is a prefix of the concrete path at a segment boundary, or
  either is a wildcard whose base is the other or an ancestor of the other.
\<close>

definition Path_matches :: "string \<Rightarrow> string \<Rightarrow> bool" where
  "Path_matches effectPath concretePath =
     (effectPath = concretePath
      \<or> starts_with concretePath (effectPath @ ''.'')
      \<or> (is_wildcard effectPath \<and> Path_isDescendant (wildcard_base effectPath) concretePath)
      \<or> (is_wildcard concretePath \<and> Path_isDescendant (wildcard_base concretePath) effectPath))"

text \<open>
  Modelled from the spec: \<open>translate(fromPrefix, toPrefix, path)\<close> replaces the leading
  \<open>fromPrefix\<close> of the path by \<open>toPrefix\<close> and keeps the trailing segments.
\<close>

definition Path_translate :: "string \<Rightarrow> string \<Rightarrow> string \<Rightarrow> string" where
  "Path_translate fromPrefix toPrefix p = toPrefix @ drop (length fromPrefix) p"

text \<open>
  Modelled from the spec: \<open>get(root, path)\<close> walks the segments and returns
  \<open>undefined\<close> on any missing segment. \<open>Path_walk\<close> walks from a value; the first
  segment is read from the root object by the caller's \<open>lookup\<close>.
\<close>

fun Path_walk :: "heap \<Rightarrow> jsval \<Rightarrow> string list \<Rightarrow> jsval" where
  "Path_walk h v [] = v"
| "Path_walk h v (p # ps) = (if truthy v then Path_walk h (prop_read h v p) ps else Undefined)"

definition Path_get :: "heap \<Rightarrow> (string \<Rightarrow> jsval) \<Rightarrow> string \<Rightarrow> jsval" where
  "Path_get h lookup p =
     (case split_path p of [] \<Rightarrow> Undefined | seg # rest \<Rightarrow> Path_walk h (lookup seg) rest)"

section \<open>The instance\<close>

text \<open>
  An argument descriptor as \<open>parseArg\<close> builds it, and the \<open>info\<close> block that
  \<open>createMethodEffect\<close> and \<open>_createObservedProperty\<close> attach to their effects. One
  \<open>info\<close> object is shared by all the effects of one method signature and is mutated
  (\<open>lastRun\<close>), so effects hold its address in \<open>i_infos\<close>.
\<close>

record argdesc =
  a_name :: string
  a_literal :: bool
  a_value :: jsval
  a_structured :: bool
  a_rootProperty :: string
  a_wildcard :: bool

record info =
  methodName :: string
  args :: "argdesc list"
  methodInfo :: "string option"
  dynamicFn :: bool
  lastRun :: "nat option"

datatype effect_fn = RunObserverEffect | RunMethodObserverEffect | RunComputedEffect

record effect =
  fx_path :: string
  fx_fn :: effect_fn
  fx_info :: "nat option"

text \<open>
  The four effect maps of \<open>TYPES\<close>. A map is absent (\<open>None\<close>) until the first effect of
  its type is added; a bucket is the array of effects of one root property, where
  \<open>None\<close> is the \<open>undefined\<close> that \<open>_createReadOnlyProperty\<close> pushes.
\<close>

datatype effect_type = ANY | COMPUTE | OBSERVE | READ_ONLY

type_synonym effect_map = "(string \<Rightarrow> effect option list option) option"

text \<open>
  What a user method was called with: the kind of effect that made the call, the method
  name and the argument vector. The two logs are instrumentation of the model: the
  calls made to user methods, and the dispatches \<open>fx.fn(...)\<close> of
  \<open>runEffectsForProperty\<close> as (run id, info address, property).
\<close>

datatype call_kind = ObserverCall | MethodCall

record store =
  i_data :: props
  i_dataPending :: "props option"
  i_dataOld :: "props option"
  i_dataInvalid :: bool
  i_asyncEffects :: bool
  i_dataInitialized :: bool
  i_dataPendingClients :: "nat list option"
  i_dataFromAbove :: bool
  i_dataLinkedPaths :: "(string \<times> string) list option"
  i_dataInterim :: "props option"
  i_dataInterimOld :: "props option"
  i_runId :: nat
  i_propertyEffects :: effect_map
  i_computeEffects :: effect_map
  i_observeEffects :: effect_map
  i_readOnly :: effect_map
  i_infos :: "nat \<Rightarrow> info"
  i_nextInfo :: nat
  i_methods :: "string \<Rightarrow> (jsval list \<Rightarrow> jsval) option"
  i_unmanaged :: props
  i_heap :: heap
  i_nextRef :: nat
  effectUid :: nat
  i_calls :: "(call_kind \<times> string \<times> jsval list) list"
  i_dispatched :: "(nat \<times> nat option \<times> string) list"

text \<open>\<open>inst[type]\<close> for one of the four keys of \<open>TYPES\<close>.\<close>

fun effects_of :: "store \<Rightarrow> effect_type \<Rightarrow> effect_map" where
  "effects_of s ANY = i_propertyEffects s"
| "effects_of s COMPUTE = i_computeEffects s"
| "effects_of s OBSERVE = i_observeEffects s"
| "effects_of s READ_ONLY = i_readOnly s"

text \<open>\<open>_hasPropertyEffect(property, type)\<close>: \<open>Boolean(effects && effects[property])\<close>.\<close>

definition hasPropertyEffect :: "store \<Rightarrow> string \<Rightarrow> effect_type \<Rightarrow> bool" where
  "hasPropertyEffect s property ty =
     (case effects_of s ty of None \<Rightarrow> False | Some effects \<Rightarrow> effects property \<noteq> None)"

definition hasReadOnlyEffect :: "store \<Rightarrow> string \<Rightarrow> bool" where
  "hasReadOnlyEffect s property = hasPropertyEffect s property READ_ONLY"

definition hasComputedEffect :: "store \<Rightarrow> string \<Rightarrow> bool" where
  "hasComputedEffect s property = hasPropertyEffect s property COMPUTE"

text \<open>
  \<open>this[p]\<close> as a path walk reads it. A property has an accessor exactly when it has a
  bucket in \<open>__propertyEffects\<close> (\<open>_addPropertyEffect\<close> creates both together), and the
  getter returns \<open>__data[p]\<close>; any other name is a plain own property of the instance.
  Names of methods and of the internal slots are not paths of this model.
\<close>

definition inst_get :: "store \<Rightarrow> string \<Rightarrow> jsval" where
  "inst_get s p =
     (if hasPropertyEffect s p ANY then pget (i_data s) p else pget (i_unmanaged s) p)"

text \<open>A fresh object on the heap.\<close>

definition alloc :: "store \<Rightarrow> jsobj \<Rightarrow> store \<times> jsval" where
  "alloc s ob =
     (s\<lparr>i_heap := (i_heap s)(i_nextRef s \<mapsto> ob), i_nextRef := Suc (i_nextRef s)\<rparr>,
      Ref (i_nextRef s))"

text \<open>
  Modelled from the spec: \<open>set(root, path, value)\<close> walks all but the last segment; if
  an intermediate is missing it returns falsy (\<open>None\<close>) and writes nothing; otherwise
  it assigns the leaf and returns the normalized path. \<open>Path_set_obj\<close> is the walk from
  an object value, \<open>Path_set_inst\<close> the walk from the instance, whose single-segment
  case is the plain assignment \<open>this[path] = value\<close>.
\<close>

fun Path_set_walk :: "heap \<Rightarrow> jsval \<Rightarrow> string list \<Rightarrow> jsval \<Rightarrow> heap option" where
  "Path_set_walk h v [] x = None"
| "Path_set_walk h v [leaf] x = Some (prop_write h v leaf x)"
| "Path_set_walk h v (p # q # ps) x =
     (let v' = prop_read h v p in
      if truthy v' then Path_set_walk h v' (q # ps) x else None)"

definition Path_set_obj :: "store \<Rightarrow> jsval \<Rightarrow> string \<Rightarrow> jsval \<Rightarrow> store \<times> string option" where
  "Path_set_obj s rootv p x =
     (case Path_set_walk (i_heap s) rootv (split_path p) x of
        None \<Rightarrow> (s, None)
      | Some h' \<Rightarrow> (s\<lparr>i_heap := h'\<rparr>, Some p))"

definition Path_set_inst :: "store \<Rightarrow> string \<Rightarrow> jsval \<Rightarrow> store \<times> string option" where
  "Path_set_inst s p x =
     (case split_path p of
        [] \<Rightarrow> (s, None)
      | [seg] \<Rightarrow> (s\<lparr>i_unmanaged := pset (i_unmanaged s) p x\<rparr>, Some p)
      | seg # q # ps \<Rightarrow>
          (let v' = inst_get s seg in
           if truthy v' then
             (case Path_set_walk (i_heap s) v' (q # ps) x of
                None \<Rightarrow> (s, None)
              | Some h' \<Rightarrow> (s\<lparr>i_heap := h'\<rparr>, Some p))
           else (s, None)))"

section \<open>property-accessors.js and property-effects.js: the pending buffer\<close>

text \<open>
  \<open>PropertyAccessors._setPendingProperty(property, value)\<close>. The result flag is the
  returned \<open>true\<close> (or \<open>undefined\<close>). \<open>property in this.__dataOld\<close> throws when
  \<open>__dataOld\<close> is \<open>null\<close>.
\<close>

definition setPendingProperty_base :: "store \<Rightarrow> string \<Rightarrow> jsval \<Rightarrow> error + store \<times> bool" where
  "setPendingProperty_base s property val =
     (let old = pget (i_data s) property in
      if shouldPropChange property val old then
        (let (pd, od) = (case i_dataPending s of
                           None \<Rightarrow> ([], Some [])
                         | Some pd \<Rightarrow> (pd, i_dataOld s)) in
         case od of
           None \<Rightarrow> Inl TypeError
         | Some ol \<Rightarrow>
             Inr (s\<lparr>i_dataOld := Some (if \<not> pin property ol then pset ol property old else ol),
                     i_data := pset (i_data s) property val,
                     i_dataPending := Some (pset pd property val)\<rparr>, True))
      else Inr (s, False))"

text \<open>
  \<open>PropertyEffects._setPendingProperty(prop, value)\<close>: an object value first clears
  the cached entries of \<open>__data\<close> that are descendants of \<open>prop\<close>.
\<close>

definition setPendingProperty :: "store \<Rightarrow> string \<Rightarrow> jsval \<Rightarrow> error + store \<times> bool" where
  "setPendingProperty s prop val =
     setPendingProperty_base
       (if typeof_object val then
          s\<lparr>i_data := map (\<lambda>(p, v). if Path_isDescendant prop p then (p, Undefined) else (p, v))
                          (i_data s)\<rparr>
        else s)
       prop val"


section \<open>property-effects.js: running one effect\<close>

text \<open>
  \<open>marshalArgs(data, args, path, value)\<close>; a wildcard argument allocates its
  \<open>{path, value, base}\<close> descriptor.
\<close>

fun marshalArgs :: "store \<Rightarrow> argdesc list \<Rightarrow> string \<Rightarrow> jsval \<Rightarrow> store \<times> jsval list" where
  "marshalArgs s [] pth val = (s, [])"
| "marshalArgs s (arg # rest) pth val =
     (let nm = a_name arg;
          v = (if a_literal arg then a_value arg
               else if pth = nm then val
               else (let v0 = pget (i_data s) nm in
                     if v0 = Undefined \<and> a_structured arg
                     then Path_get (i_heap s) (pget (i_data s)) nm else v0));
          (s1, x) = (if a_wildcard arg then
                       (let baseChanged = starts_with nm (pth @ ''.'');
                            matches = (starts_with pth nm \<and> \<not> baseChanged) in
                        alloc s (Obj [(''path'', Str (if matches then pth else nm)),
                                      (''value'', if matches then val else v),
                                      (''base'', v)]))
                     else (s, v));
          (s2, xs) = marshalArgs s1 rest pth val
      in (s2, x # xs))"

text \<open>
  \<open>runMethodEffect\<close>: the method is looked up by name among the methods copied onto
  the instance; a missing method only warns and yields \<open>undefined\<close>. User methods are
  functions of their argument values here, and so are the observers below: their bodies
  leave the instance alone. Methods whose bodies write to the instance are run by
  \<open>runMethodEffect_act\<close> and \<open>runObserverEffect_act\<close>, in the section on callbacks.
\<close>

definition runMethodEffect :: "store \<Rightarrow> string \<Rightarrow> jsval \<Rightarrow> jsval \<Rightarrow> info \<Rightarrow> store \<times> jsval" where
  "runMethodEffect s property val old nfo =
     (case i_methods s (methodName nfo) of
        Some f \<Rightarrow>
          (let (s1, as) = marshalArgs s (args nfo) property val in
           (s1\<lparr>i_calls := i_calls s1 @ [(MethodCall, methodName nfo, as)]\<rparr>, f as))
      | None \<Rightarrow> (s, Undefined))"

definition runObserverEffect :: "store \<Rightarrow> string \<Rightarrow> jsval \<Rightarrow> jsval \<Rightarrow> info \<Rightarrow> store" where
  "runObserverEffect s property val old nfo =
     (case i_methods s (methodName nfo) of
        Some f \<Rightarrow> s\<lparr>i_calls := i_calls s @ [(ObserverCall, methodName nfo, [val, old, Str property])]\<rparr>
      | None \<Rightarrow> s)"

definition runMethodObserverEffect :: "store \<Rightarrow> string \<Rightarrow> jsval \<Rightarrow> jsval \<Rightarrow> info \<Rightarrow> store" where
  "runMethodObserverEffect s property val old nfo = fst (runMethodEffect s property val old nfo)"

text \<open>
  \<open>BatchedEffects._setPropertyFromComputation(prop, value)\<close>; a property without
  effects has no accessor, so \<open>this[prop] = value\<close> is a plain assignment.
\<close>

definition setPropertyFromComputation :: "store \<Rightarrow> string option \<Rightarrow> jsval \<Rightarrow> error + store" where
  "setPropertyFromComputation s prop val =
     (let key = (case prop of None \<Rightarrow> ''undefined'' | Some p \<Rightarrow> p) in
      if hasPropertyEffect s key ANY then
        (case setPendingProperty s key val of Inl e \<Rightarrow> Inl e | Inr (s1, ch) \<Rightarrow> Inr s1)
      else Inr (s\<lparr>i_unmanaged := pset (i_unmanaged s) key val\<rparr>))"

definition runComputedEffect :: "store \<Rightarrow> string \<Rightarrow> jsval \<Rightarrow> jsval \<Rightarrow> info \<Rightarrow> error + store" where
  "runComputedEffect s property val old nfo =
     (let (s1, result) = runMethodEffect s property val old nfo in
      setPropertyFromComputation s1 (methodInfo nfo) result)"

text \<open>
  The call \<open>fx.fn(inst, prop, value, old, fx.info, fromAbove)\<close>. Each of the three effect
  functions reads \<open>info.methodName\<close> first, which throws when the effect has no info.
\<close>

definition run_fn :: "store \<Rightarrow> effect_fn \<Rightarrow> string \<Rightarrow> jsval \<Rightarrow> jsval \<Rightarrow> nat option \<Rightarrow> error + store" where
  "run_fn s f property val old io =
     (case io of
        None \<Rightarrow> Inl TypeError
      | Some i \<Rightarrow>
          (case f of
             RunObserverEffect \<Rightarrow> Inr (runObserverEffect s property val old (i_infos s i))
           | RunMethodObserverEffect \<Rightarrow> Inr (runMethodObserverEffect s property val old (i_infos s i))
           | RunComputedEffect \<Rightarrow> runComputedEffect s property val old (i_infos s i)))"

section \<open>batched-effects.js: the dispatcher\<close>

text \<open>
  The loop of \<open>runEffectsForProperty\<close> over the bucket \<open>fxs\<close>; it stops at the first
  falsy element.
\<close>

fun run_fxs :: "store \<Rightarrow> effect option list \<Rightarrow> nat \<Rightarrow> string \<Rightarrow> jsval \<Rightarrow> error + store \<times> bool" where
  "run_fxs s [] rid prop old = Inr (s, False)"
| "run_fxs s (None # rest) rid prop old = Inr (s, False)"
| "run_fxs s (Some fx # rest) rid prop old =
     (if Path_matches (fx_path fx) prop
         \<and> (case fx_info fx of None \<Rightarrow> True | Some i \<Rightarrow> lastRun (i_infos s i) \<noteq> Some rid)
      then
        (case run_fn (s\<lparr>i_dispatched := i_dispatched s @ [(rid, fx_info fx, prop)]\<rparr>)
                     (fx_fn fx) prop (pget (i_data s) prop) old (fx_info fx) of
           Inl e \<Rightarrow> Inl e
         | Inr s1 \<Rightarrow>
             (let s2 = (case fx_info fx of
                          None \<Rightarrow> s1
                        | Some i \<Rightarrow> s1\<lparr>i_infos := (i_infos s1)(i := (i_infos s1 i)\<lparr>lastRun := Some rid\<rparr>)\<rparr>)
              in case run_fxs s2 rest rid prop old of
                   Inl e \<Rightarrow> Inl e
                 | Inr (s3, r) \<Rightarrow> Inr (s3, True)))
      else run_fxs s rest rid prop old)"

definition runEffectsForProperty ::
  "store \<Rightarrow> (string \<Rightarrow> effect option list option) \<Rightarrow> nat \<Rightarrow> string \<Rightarrow> jsval \<Rightarrow> error + store \<times> bool" where
  "runEffectsForProperty s effects rid prop old =
     (let rootProperty = Path_root prop in
      case effects rootProperty of
        None \<Rightarrow> Inr (s, False)
      | Some fxs \<Rightarrow> run_fxs s fxs rid prop old)"

text \<open>The loop \<open>for (let prop in props)\<close> of \<open>runEffects\<close>.\<close>

fun run_props ::
  "store \<Rightarrow> (string \<Rightarrow> effect option list option) \<Rightarrow> nat \<Rightarrow> string list \<Rightarrow> (string \<Rightarrow> jsval)
   \<Rightarrow> error + store \<times> bool" where
  "run_props s effects rid [] oldOf = Inr (s, False)"
| "run_props s effects rid (prop # rest) oldOf =
     (case runEffectsForProperty s effects rid prop (oldOf prop) of
        Inl e \<Rightarrow> Inl e
      | Inr (s1, r1) \<Rightarrow>
          (case run_props s1 effects rid rest oldOf of
             Inl e \<Rightarrow> Inl e
           | Inr (s2, r2) \<Rightarrow> Inr (s2, r1 \<or> r2)))"

text \<open>
  \<open>runEffects(inst, type, props, oldProps)\<close>; \<open>oldOf prop\<close> is the argument expression
  \<open>oldProps && oldProps[prop]\<close>. The flag is the returned \<open>ran\<close>.
\<close>

definition runEffects ::
  "store \<Rightarrow> effect_type \<Rightarrow> props option \<Rightarrow> (string \<Rightarrow> jsval) \<Rightarrow> error + store \<times> bool" where
  "runEffects s ty prs oldOf =
     (case effects_of s ty of
        None \<Rightarrow> Inr (s, False)
      | Some effects \<Rightarrow>
          (let rid = effectUid s in
           run_props (s\<lparr>effectUid := Suc rid\<rparr>) effects rid
             (case prs of None \<Rightarrow> [] | Some ps \<Rightarrow> map fst ps) oldOf))"

section \<open>batched-effects.js: the change cycle\<close>

text \<open>
  The \<open>while\<close> loop of \<open>runComputedEffects\<close>. It has no bound of its own, so it is a
  partial function: \<open>None\<close> is the loop that never ends, \<open>Some (Inl e)\<close> a throw,
  \<open>Some (Inr r)\<close> the normal exit with the instance and the three bags
  \<open>changedProps\<close>, \<open>oldProps\<close>, \<open>computedProps\<close> as the loop left them.
\<close>

partial_function (option) runComputedEffects_loop ::
  "store \<Rightarrow> props option \<Rightarrow> props option \<Rightarrow> props option \<Rightarrow> props option
   \<Rightarrow> (error + store \<times> props option \<times> props option \<times> props option) option" where
  "runComputedEffects_loop s inputProps changedProps oldProps computedProps =
     (case runEffects s COMPUTE inputProps (\<lambda>p. Undefined) of
        Inl e \<Rightarrow> Some (Inl e)
      | Inr (s1, r) \<Rightarrow>
          if r then
            (case mixin oldProps (i_dataOld s1) of
               Inl e \<Rightarrow> Some (Inl e)
             | Inr oldProps' \<Rightarrow>
                 (case mixin changedProps (i_dataPending s1) of
                    Inl e \<Rightarrow> Some (Inl e)
                  | Inr changedProps' \<Rightarrow>
                      (case mixin (Some (case computedProps of None \<Rightarrow> [] | Some c \<Rightarrow> c))
                                  (i_dataPending s1) of
                         Inl e \<Rightarrow> Some (Inl e)
                       | Inr computedProps' \<Rightarrow>
                           runComputedEffects_loop (s1\<lparr>i_dataPending := None\<rparr>)
                             (i_dataPending s1) changedProps' oldProps' computedProps')))
          else Some (Inr (s1, changedProps, oldProps, computedProps)))"

declare runComputedEffects_loop.simps [code]

definition runComputedEffects ::
  "store \<Rightarrow> props option \<Rightarrow> props option
   \<Rightarrow> (error + store \<times> props option \<times> props option \<times> props option) option" where
  "runComputedEffects s changedProps oldProps =
     (if i_computeEffects s \<noteq> None
      then runComputedEffects_loop s changedProps changedProps oldProps None
      else Some (Inr (s, changedProps, oldProps, None)))"

text \<open>
  \<open>computeLinkedPaths\<close>. The inner \<open>for (let path in changedProps)\<close> enumerates the
  keys present when it starts; the triple is \<open>(__data, changedProps, computedProps)\<close>.
\<close>

definition link_step :: "string \<Rightarrow> string \<Rightarrow> string \<Rightarrow> props \<times> props \<times> props \<Rightarrow> props \<times> props \<times> props" where
  "link_step a b pth t =
     (case t of (d, ch, co) \<Rightarrow>
        if Path_isDescendant a pth then
          (let lnk = Path_translate a b pth; v = pget ch pth
           in (pset d lnk v, pset ch lnk v, pset co lnk v))
        else if Path_isDescendant b pth then
          (let lnk = Path_translate b a pth; v = pget ch pth
           in (pset d lnk v, pset ch lnk v, pset co lnk v))
        else (d, ch, co))"

definition link_pair :: "string \<times> string \<Rightarrow> props \<times> props \<times> props \<Rightarrow> props \<times> props \<times> props" where
  "link_pair ab t =
     (case t of (d, ch, co) \<Rightarrow> foldl (\<lambda>acc pth. link_step (fst ab) (snd ab) pth acc) t (map fst ch))"

definition computeLinkedPaths ::
  "store \<Rightarrow> props option \<Rightarrow> props option \<Rightarrow> store \<times> props option \<times> props option" where
  "computeLinkedPaths s changedProps computedProps =
     (case i_dataLinkedPaths s of
        None \<Rightarrow> (s, changedProps, computedProps)
      | Some links \<Rightarrow>
          (let co0 = (case computedProps of None \<Rightarrow> [] | Some c \<Rightarrow> c) in
           case changedProps of
             None \<Rightarrow> (s, None, Some co0)
           | Some ch0 \<Rightarrow>
               (case foldl (\<lambda>acc ab. link_pair ab acc) (i_data s, ch0, co0) links of
                  (d, ch, co) \<Rightarrow> (s\<lparr>i_data := d\<rparr>, Some ch, Some co))))"

text \<open>
  \<open>notifyProperties\<close>: the result is the returned \<open>{changedProps, oldProps}\<close>, or
  \<open>None\<close> for the \<open>undefined\<close> of a frame that is not the last entry.
\<close>

definition notifyProperties ::
  "store \<Rightarrow> props option \<Rightarrow> props option \<Rightarrow> props option
   \<Rightarrow> error + store \<times> (props option \<times> props option) option" where
  "notifyProperties s changedProps computedProps oldProps =
     (let runId = i_runId s + 1;
          s1 = s\<lparr>i_runId := runId\<rparr> in
      case (case i_dataInterim s1 of None \<Rightarrow> Inr changedProps
                                   | Some it \<Rightarrow> mixin (Some it) changedProps) of
        Inl e \<Rightarrow> Inl e
      | Inr interim \<Rightarrow>
          (case (case i_dataInterimOld s1 of None \<Rightarrow> Inr oldProps
                                          | Some io \<Rightarrow> mixin (Some io) oldProps) of
             Inl e \<Rightarrow> Inl e
           | Inr interimOld \<Rightarrow>
               (let s2 = s1\<lparr>i_dataInterim := interim, i_dataInterimOld := interimOld\<rparr> in
                if runId = i_runId s2 then
                  Inr (s2\<lparr>i_dataInterim := None, i_dataInterimOld := None\<rparr>,
                       Some (i_dataInterim s2, i_dataInterimOld s2))
                else Inr (s2, None))))"

text \<open>
  \<open>_flushClients\<close>: the clients are other instances; flushing them is outside this
  store, and the set is cleared.
\<close>

definition flushClients :: "store \<Rightarrow> store" where
  "flushClients s =
     (case i_dataPendingClients s of None \<Rightarrow> s | Some clients \<Rightarrow> s\<lparr>i_dataPendingClients := None\<rparr>)"

definition enqueueClient :: "store \<Rightarrow> nat option \<Rightarrow> store" where
  "enqueueClient s client =
     (let cs = (case i_dataPendingClients s of None \<Rightarrow> [] | Some c \<Rightarrow> c) in
      case client of
        None \<Rightarrow> s\<lparr>i_dataPendingClients := Some cs\<rparr>
      | Some c \<Rightarrow> s\<lparr>i_dataPendingClients := Some (if c \<in> set cs then cs else cs @ [c])\<rparr>)"

text \<open>\<open>BatchedEffects._propertiesChanged(currentProps, changedProps, oldProps)\<close>.\<close>

definition propertiesChanged :: "store \<Rightarrow> props option \<Rightarrow> props option \<Rightarrow> (error + store) option" where
  "propertiesChanged s changedProps oldProps =
     (case runComputedEffects s changedProps oldProps of
        None \<Rightarrow> None
      | Some (Inl e) \<Rightarrow> Some (Inl e)
      | Some (Inr (s1, changed1, old1, computed1)) \<Rightarrow>
          (case computeLinkedPaths s1 changed1 computed1 of
             (s2, changed2, computed2) \<Rightarrow>
               (case notifyProperties s2 changed2 computed2 old1 of
                  Inl e \<Rightarrow> Some (Inl e)
                | Inr (s3, None) \<Rightarrow> Some (Inr s3)
                | Inr (s3, Some (changed3, old3)) \<Rightarrow>
                    (case runEffects (flushClients s3) OBSERVE changed3
                            (\<lambda>p. case old3 of None \<Rightarrow> Null | Some ol \<Rightarrow> pget ol p) of
                       Inl e \<Rightarrow> Some (Inl e)
                     | Inr (s4, r) \<Rightarrow> Some (Inr s4)))))"

section \<open>Flushing\<close>

text \<open>\<open>ready()\<close>.\<close>

definition ready :: "store \<Rightarrow> store" where
  "ready s = s\<lparr>i_dataInitialized := True\<rparr>"

text \<open>\<open>PropertyAccessors._flushProperties()\<close>.\<close>

definition flushProperties_base :: "store \<Rightarrow> (error + store) option" where
  "flushProperties_base s =
     (let oldProps = i_dataOld s;
          changedProps = i_dataPending s
      in propertiesChanged (s\<lparr>i_dataPending := None\<rparr>) changedProps oldProps)"

text \<open>\<open>PropertyEffects._flushProperties(fromAbove)\<close>.\<close>

definition flushProperties :: "store \<Rightarrow> bool \<Rightarrow> (error + store) option" where
  "flushProperties s fromAbove =
     (let s1 = (if \<not> i_dataInitialized s then ready s else s) in
      if i_dataPending s1 \<noteq> None \<or> i_dataPendingClients s1 \<noteq> None then
        (case flushProperties_base (s1\<lparr>i_dataFromAbove := fromAbove\<rparr>) of
           None \<Rightarrow> None
         | Some (Inl e) \<Rightarrow> Some (Inl e)
         | Some (Inr s2) \<Rightarrow> Some (Inr (s2\<lparr>i_dataFromAbove := False\<rparr>)))
      else Some (Inr s1))"

text \<open>
  \<open>PropertyEffects._invalidateProperties()\<close>. In the asynchronous mode the base class
  sets \<open>__dataInvalid\<close> and queues a microtask; the microtask itself is a later call
  of \<open>flushProperties\<close>.
\<close>

definition invalidateProperties :: "store \<Rightarrow> (error + store) option" where
  "invalidateProperties s =
     (if i_dataInitialized s then
        (if i_asyncEffects s then
           Some (Inr (if \<not> i_dataInvalid s then s\<lparr>i_dataInvalid := True\<rparr> else s))
         else flushProperties s False)
      else Some (Inr s))"

text \<open>\<open>_setProperty(property, value)\<close>.\<close>

definition setProperty :: "store \<Rightarrow> string \<Rightarrow> jsval \<Rightarrow> (error + store) option" where
  "setProperty s property val =
     (case setPendingProperty s property val of
        Inl e \<Rightarrow> Some (Inl e)
      | Inr (s1, changed) \<Rightarrow> if changed then invalidateProperties s1 else Some (Inr s1))"

section \<open>property-effects.js: the public data API\<close>

text \<open>
  \<open>_setPathOrUnmanagedProperty(path, value)\<close>; the result is the returned path, or
  \<open>None\<close> for \<open>undefined\<close>.
\<close>

definition setPathOrUnmanagedProperty :: "store \<Rightarrow> string \<Rightarrow> jsval \<Rightarrow> store \<times> string option" where
  "setPathOrUnmanagedProperty s pth val =
     (let rootProperty = Path_root pth;
          hasEffect = hasPropertyEffect s rootProperty ANY;
          isPath = (rootProperty \<noteq> pth);
          (s1, pth1) = (if \<not> hasEffect \<or> isPath then Path_set_inst s pth val else (s, Some pth))
      in if hasEffect then (s1, pth1) else (s1, None))"

text \<open>\<open>get(path, root)\<close>; \<open>root\<close> is \<open>Undefined\<close> when the argument is left out.\<close>

definition get :: "store \<Rightarrow> string \<Rightarrow> jsval \<Rightarrow> jsval" where
  "get s pth rootv =
     (if truthy rootv then Path_get (i_heap s) (prop_read (i_heap s) rootv) pth
      else Path_get (i_heap s) (inst_get s) pth)"

text \<open>
  \<open>set(path, value, root)\<close>. The test \<open>if ((path = ...))\<close> is on the truthiness of the
  returned path: \<open>undefined\<close> and the empty string are falsy.
\<close>

definition set_path :: "store \<Rightarrow> string \<Rightarrow> jsval \<Rightarrow> jsval \<Rightarrow> (error + store) option" where
  "set_path s pth val rootv =
     (if truthy rootv then Some (Inr (fst (Path_set_obj s rootv pth val)))
      else if \<not> hasReadOnlyEffect s pth then
        (case setPathOrUnmanagedProperty s pth val of
           (s1, Some p1) \<Rightarrow> if p1 \<noteq> [] then setProperty s1 p1 val else Some (Inr s1)
         | (s1, None) \<Rightarrow> Some (Inr s1))
      else Some (Inr s))"

text \<open>
  \<open>notifyPath(path, value)\<close>: \<open>notifyPath1\<close> is the call with one argument, which
  reads the value at the path, \<open>notifyPath2\<close> the call with two.
\<close>

definition notifyPath1 :: "store \<Rightarrow> string \<Rightarrow> (error + store) option" where
  "notifyPath1 s pth = setProperty s pth (Path_get (i_heap s) (inst_get s) pth)"

definition notifyPath2 :: "store \<Rightarrow> string \<Rightarrow> jsval \<Rightarrow> (error + store) option" where
  "notifyPath2 s pth val = setProperty s pth val"

text \<open>\<open>v.length\<close>, which throws on \<open>undefined\<close> and \<open>null\<close>.\<close>

definition length_of :: "heap \<Rightarrow> jsval \<Rightarrow> error + jsval" where
  "length_of h v =
     (case v of Undefined \<Rightarrow> Inl TypeError | Null \<Rightarrow> Inl TypeError | _ \<Rightarrow> Inr (prop_read h v ''length''))"

text \<open>The function \<open>notifySplices(inst, array, path, splices)\<close>.\<close>

definition notifySplices_fn :: "store \<Rightarrow> jsval \<Rightarrow> string \<Rightarrow> jsval \<Rightarrow> (error + store) option" where
  "notifySplices_fn s array pth splices =
     (let splicesPath = pth @ ''.splices'';
          (s1, ob) = alloc s (Obj [(''indexSplices'', splices)])
      in case setProperty s1 splicesPath ob of
           None \<Rightarrow> None
         | Some (Inl e) \<Rightarrow> Some (Inl e)
         | Some (Inr s2) \<Rightarrow>
             (case length_of (i_heap s2) array of
                Inl e \<Rightarrow> Some (Inl e)
              | Inr len \<Rightarrow>
                  (case setProperty s2 (pth @ ''.length'') len of
                     None \<Rightarrow> None
                   | Some (Inl e) \<Rightarrow> Some (Inl e)
                   | Some (Inr s3) \<Rightarrow>
                       (let (s4, nulled) = alloc s3 (Obj [(''indexSplices'', Null)])
                        in Some (Inr (s4\<lparr>i_data := pset (i_data s4) splicesPath nulled\<rparr>))))))"

text \<open>The function \<open>notifySplice(inst, array, path, index, addedCount, removed)\<close>.\<close>

definition notifySplice ::
  "store \<Rightarrow> jsval \<Rightarrow> string \<Rightarrow> jsval \<Rightarrow> jsval \<Rightarrow> jsval \<Rightarrow> (error + store) option" where
  "notifySplice s array pth index addedCount removed =
     (let (s1, record) = alloc s (Obj [(''index'', index), (''addedCount'', addedCount),
                                       (''removed'', removed), (''object'', array),
                                       (''type'', Str ''splice'')]);
          (s2, splices) = alloc s1 (Arr [record])
      in notifySplices_fn s2 array pth splices)"


section \<open>property-effects.js: array mutators\<close>

text \<open>
  The array a mutator works on. \<open>array.push\<close>, \<open>array.pop\<close>, \<open>array.shift\<close>,
  \<open>array.unshift\<close> and \<open>array.splice\<close> exist on arrays only: on \<open>undefined\<close> and
  \<open>null\<close> already \<open>array.length\<close> throws, on any other value the method call does.
\<close>

definition array_at :: "store \<Rightarrow> jsval \<Rightarrow> error + nat \<times> jsval list" where
  "array_at s v =
     (case v of
        Ref r \<Rightarrow> (case i_heap s r of Some (Arr xs) \<Rightarrow> Inr (r, xs) | _ \<Rightarrow> Inl TypeError)
      | _ \<Rightarrow> Inl TypeError)"

definition num_of_nat :: "nat \<Rightarrow> jsval" where
  "num_of_nat n = Num (Fin (of_nat n))"

definition write_array :: "store \<Rightarrow> nat \<Rightarrow> jsval list \<Rightarrow> store" where
  "write_array s r xs = s\<lparr>i_heap := (i_heap s)(r \<mapsto> Arr xs)\<rparr>"

text \<open>\<open>push(path, ...items)\<close>; the second component is the return value.\<close>

definition push :: "store \<Rightarrow> string \<Rightarrow> jsval list \<Rightarrow> (error + store \<times> jsval) option" where
  "push s pth items =
     (let array = Path_get (i_heap s) (inst_get s) pth in
      case array_at s array of
        Inl e \<Rightarrow> Some (Inl e)
      | Inr (r, xs) \<Rightarrow>
          (let len = length xs;
               s1 = write_array s r (xs @ items);
               ret = num_of_nat (length (xs @ items))
           in if items \<noteq> [] then
                (let (s2, removed) = alloc s1 (Arr []) in
                 case notifySplice s2 array pth (num_of_nat len) (num_of_nat (length items)) removed of
                   None \<Rightarrow> None
                 | Some (Inl e) \<Rightarrow> Some (Inl e)
                 | Some (Inr s3) \<Rightarrow> Some (Inr (s3, ret)))
              else Some (Inr (s1, ret))))"

text \<open>\<open>pop(path)\<close>.\<close>

definition pop :: "store \<Rightarrow> string \<Rightarrow> (error + store \<times> jsval) option" where
  "pop s pth =
     (let array = Path_get (i_heap s) (inst_get s) pth in
      case array_at s array of
        Inl e \<Rightarrow> Some (Inl e)
      | Inr (r, xs) \<Rightarrow>
          (let hadLength = (xs \<noteq> []);
               ret = (if xs = [] then Undefined else last xs);
               s1 = write_array s r (butlast xs)
           in if hadLength then
                (let (s2, removed) = alloc s1 (Arr [ret]) in
                 case notifySplice s2 array pth (num_of_nat (length (butlast xs))) (num_of_nat 0) removed of
                   None \<Rightarrow> None
                 | Some (Inl e) \<Rightarrow> Some (Inl e)
                 | Some (Inr s3) \<Rightarrow> Some (Inr (s3, ret)))
              else Some (Inr (s1, ret))))"

text \<open>\<open>shift(path)\<close>.\<close>

definition shift :: "store \<Rightarrow> string \<Rightarrow> (error + store \<times> jsval) option" where
  "shift s pth =
     (let array = Path_get (i_heap s) (inst_get s) pth in
      case array_at s array of
        Inl e \<Rightarrow> Some (Inl e)
      | Inr (r, xs) \<Rightarrow>
          (let hadLength = (xs \<noteq> []);
               ret = (case xs of [] \<Rightarrow> Undefined | x # rest \<Rightarrow> x);
               s1 = write_array s r (case xs of [] \<Rightarrow> [] | x # rest \<Rightarrow> rest)
           in if hadLength then
                (let (s2, removed) = alloc s1 (Arr [ret]) in
                 case notifySplice s2 array pth (num_of_nat 0) (num_of_nat 0) removed of
                   None \<Rightarrow> None
                 | Some (Inl e) \<Rightarrow> Some (Inl e)
                 | Some (Inr s3) \<Rightarrow> Some (Inr (s3, ret)))
              else Some (Inr (s1, ret))))"

text \<open>\<open>unshift(path, ...items)\<close>.\<close>

definition unshift :: "store \<Rightarrow> string \<Rightarrow> jsval list \<Rightarrow> (error + store \<times> jsval) option" where
  "unshift s pth items =
     (let array = Path_get (i_heap s) (inst_get s) pth in
      case array_at s array of
        Inl e \<Rightarrow> Some (Inl e)
      | Inr (r, xs) \<Rightarrow>
          (let s1 = write_array s r (items @ xs);
               ret = num_of_nat (length (items @ xs))
           in if items \<noteq> [] then
                (let (s2, removed) = alloc s1 (Arr []) in
                 case notifySplice s2 array pth (num_of_nat 0) (num_of_nat (length items)) removed of
                   None \<Rightarrow> None
                 | Some (Inl e) \<Rightarrow> Some (Inl e)
                 | Some (Inr s3) \<Rightarrow> Some (Inr (s3, ret)))
              else Some (Inr (s1, ret))))"

text \<open>
  The normalization of \<open>start\<close> in \<open>splice\<close>:
  \<open>if (start < 0) start = array.length - Math.floor(-start); else start = Math.floor(start);
  if (!start) start = 0\<close>. A \<open>start\<close> that is not a number (left out, \<open>undefined\<close>)
  is \<open>NaN\<close> after \<open>Math.floor\<close>.
\<close>

definition splice_start :: "nat \<Rightarrow> jsnum \<Rightarrow> jsnum" where
  "splice_start len start =
     (let st = (case start of
                  Fin q \<Rightarrow> (if q < 0 then Fin (of_nat len - of_int \<lfloor>- q\<rfloor>) else Fin (of_int \<lfloor>q\<rfloor>))
                | NaN \<Rightarrow> NaN)
      in if \<not> truthy (Num st) then Fin 0 else st)"

text \<open>
  The native \<open>Array.prototype.splice(start, deleteCount, ...items)\<close> on an array of
  length \<open>len\<close>: the index the splice really starts at and the number of elements it
  removes (ECMAScript: the integer parts, negative start counted from the end, both
  clamped to the array).
\<close>

definition to_integer :: "jsnum \<Rightarrow> int" where
  "to_integer n = (case n of NaN \<Rightarrow> 0 | Fin q \<Rightarrow> (if q < 0 then - \<lfloor>- q\<rfloor> else \<lfloor>q\<rfloor>))"

definition native_actual_start :: "nat \<Rightarrow> jsnum \<Rightarrow> nat" where
  "native_actual_start len start =
     (let rs = to_integer start in
      if rs < 0 then nat (max (int len + rs) 0) else nat (min rs (int len)))"

definition native_delete_count :: "nat \<Rightarrow> nat \<Rightarrow> jsnum \<Rightarrow> nat" where
  "native_delete_count len actualStart deleteCount =
     nat (min (max (to_integer deleteCount) 0) (int len - int actualStart))"

text \<open>
  The native call \<open>array.splice(start, deleteCount, ...items)\<close>: the removed elements
  and the array after the call.
\<close>

definition native_splice :: "jsval list \<Rightarrow> jsnum \<Rightarrow> jsnum \<Rightarrow> jsval list \<Rightarrow> jsval list \<times> jsval list" where
  "native_splice xs start deleteCount items =
     (let actualStart = native_actual_start (length xs) start;
          del = native_delete_count (length xs) actualStart deleteCount
      in (take del (drop actualStart xs),
          take actualStart xs @ items @ drop (actualStart + del) xs))"

text \<open>\<open>splice(path, start, deleteCount, ...items)\<close>.\<close>

definition splice ::
  "store \<Rightarrow> string \<Rightarrow> jsnum \<Rightarrow> jsnum \<Rightarrow> jsval list \<Rightarrow> (error + store \<times> jsval) option" where
  "splice s pth start deleteCount items =
     (let array = Path_get (i_heap s) (inst_get s) pth in
      case array_at s array of
        Inl e \<Rightarrow> Some (Inl e)
      | Inr (r, xs) \<Rightarrow>
          (let start1 = splice_start (length xs) start;
               (removedItems, xs') = native_splice xs start1 deleteCount items;
               s1 = write_array s r xs';
               (s2, ret) = alloc s1 (Arr removedItems)
           in if items \<noteq> [] \<or> removedItems \<noteq> [] then
                (case notifySplice s2 array pth (Num start1) (num_of_nat (length items)) ret of
                   None \<Rightarrow> None
                 | Some (Inl e) \<Rightarrow> Some (Inl e)
                 | Some (Inr s3) \<Rightarrow> Some (Inr (s3, ret)))
              else Some (Inr (s2, ret))))"

text \<open>\<open>array.indexOf(value)\<close>: the first index whose element is \<open>===\<close> to the value.\<close>

fun index_of :: "jsval list \<Rightarrow> jsval \<Rightarrow> nat option" where
  "index_of [] v = None"
| "index_of (x # xs) v =
     (if strict_eq x v then Some 0 else (case index_of xs v of None \<Rightarrow> None | Some i \<Rightarrow> Some (Suc i)))"

text \<open>\<open>spliceByValue(path, value)\<close>.\<close>

definition spliceByValue :: "store \<Rightarrow> string \<Rightarrow> jsval \<Rightarrow> (error + store \<times> jsval) option" where
  "spliceByValue s pth val =
     (let array = Path_get (i_heap s) (inst_get s) pth in
      case length_of (i_heap s) array of
        Inl e \<Rightarrow> Some (Inl e)
      | Inr len \<Rightarrow>
          (let hadLength = truthy len;
               (s1, ret) = alloc s (Arr [])
           in if hadLength then
                (case array_at s1 array of
                   Inl e \<Rightarrow> Some (Inl e)
                 | Inr (r, xs) \<Rightarrow>
                     (case index_of xs val of
                        Some ind \<Rightarrow> splice s1 pth (Fin (of_nat ind)) (Fin 1) []
                      | None \<Rightarrow> Some (Inr (s1, ret))))
              else Some (Inr (s1, ret))))"

section \<open>Registration of effects\<close>

text \<open>The keys of the table \<open>nativeProperties\<close> of property-accessors.js.\<close>

definition nativeProperties :: "string list" where
  "nativeProperties =
     [''title'', ''lang'', ''translate'', ''dir'', ''dataset'', ''hidden'',
      ''tabIndex'', ''accessKey'', ''draggable'', ''spellcheck'', ''contentEditable'',
      ''isContentEditable'', ''offsetParent'', ''offsetTop'', ''offsetLeft'',
      ''offsetWidth'', ''offsetHeight'', ''style'', ''innerText'', ''outerText'',
      ''webkitdropzone'', ''onabort'', ''onblur'', ''oncancel'', ''oncanplay'',
      ''oncanplaythrough'', ''onchange'', ''onclick'', ''onclose'', ''oncontextmenu'',
      ''oncuechange'', ''ondblclick'', ''ondrag'', ''ondragend'', ''ondragenter'',
      ''ondragleave'', ''ondragover'', ''ondragstart'', ''ondrop'',
      ''ondurationchange'', ''onemptied'', ''onended'', ''onerror'', ''onfocus'',
      ''oninput'', ''oninvalid'', ''onkeydown'', ''onkeypress'', ''onkeyup'',
      ''onload'', ''onloadeddata'', ''onloadedmetadata'', ''onloadstart'',
      ''onmousedown'', ''onmouseenter'', ''onmouseleave'', ''onmousemove'',
      ''onmouseout'', ''onmouseover'', ''onmouseup'', ''onmousewheel'', ''onpause'',
      ''onplay'', ''onplaying'']"

text \<open>
  \<open>saveAccessorValue(model, property)\<close> on an instance: a value the instance already
  holds under the name becomes a pending change. It runs before the accessor is defined,
  so the value read is the plain own property.
\<close>

definition saveAccessorValue :: "store \<Rightarrow> string \<Rightarrow> error + store" where
  "saveAccessorValue s property =
     (if property \<notin> set nativeProperties then
        (let val = pget (i_unmanaged s) property in
         if val \<noteq> Undefined then
           (case setPendingProperty s property val of Inl e \<Rightarrow> Inl e | Inr (s1, ch) \<Rightarrow> Inr s1)
         else Inr s)
      else Inr s)"

text \<open>
  \<open>_createPropertyAccessor(property, readOnly)\<close>. The getter is \<open>inst_get\<close>; the
  setter is only reached by a direct assignment \<open>inst.prop = v\<close>, which no function
  of this development makes on a property with an accessor.
\<close>

definition createPropertyAccessor :: "store \<Rightarrow> string \<Rightarrow> bool \<Rightarrow> error + store" where
  "createPropertyAccessor s property readOnly = saveAccessorValue s property"

text \<open>\<open>ensureOwnEffectMap(model, type)\<close> on an instance whose class has no effects.\<close>

definition set_effects :: "store \<Rightarrow> effect_type \<Rightarrow> effect_map \<Rightarrow> store" where
  "set_effects s ty m =
     (case ty of
        ANY \<Rightarrow> s\<lparr>i_propertyEffects := m\<rparr>
      | COMPUTE \<Rightarrow> s\<lparr>i_computeEffects := m\<rparr>
      | OBSERVE \<Rightarrow> s\<lparr>i_observeEffects := m\<rparr>
      | READ_ONLY \<Rightarrow> s\<lparr>i_readOnly := m\<rparr>)"

definition ensureOwnEffectMap :: "store \<Rightarrow> effect_type \<Rightarrow> store \<times> (string \<Rightarrow> effect option list option)" where
  "ensureOwnEffectMap s ty =
     (case effects_of s ty of
        None \<Rightarrow> (set_effects s ty (Some (\<lambda>p. None)), (\<lambda>p. None))
      | Some effects \<Rightarrow> (s, effects))"

text \<open>
  \<open>_addPropertyEffect(path, type, effect)\<close>; the effect is given without its path,
  which this method sets, and is \<open>None\<close> when the argument is left out.
\<close>

definition addPropertyEffect ::
  "store \<Rightarrow> string \<Rightarrow> effect_type \<Rightarrow> (effect_fn \<times> nat option) option \<Rightarrow> error + store" where
  "addPropertyEffect s pth ty eff =
     (let property = Path_root pth;
          (s1, anyMap) = ensureOwnEffectMap s ANY
      in case (case anyMap property of
                 None \<Rightarrow>
                   (case createPropertyAccessor (set_effects s1 ANY (Some (anyMap(property \<mapsto> []))))
                           property (ty = READ_ONLY) of
                      Inl e \<Rightarrow> Inl e
                    | Inr s2 \<Rightarrow> Inr (s2, []))
               | Some fxs \<Rightarrow> Inr (s1, fxs)) of
           Inl e \<Rightarrow> Inl e
         | Inr (s2, fxs) \<Rightarrow>
             (let effect = (case eff of
                              None \<Rightarrow> None
                            | Some (f, io) \<Rightarrow> Some \<lparr>fx_path = pth, fx_fn = f, fx_info = io\<rparr>);
                  s3 = (case effect of
                          None \<Rightarrow> s2
                        | Some fx \<Rightarrow>
                            (case i_propertyEffects s2 of
                               None \<Rightarrow> s2
                             | Some m \<Rightarrow> set_effects s2 ANY (Some (m(property \<mapsto> fxs @ [Some fx])))));
                  (s4, tyMap) = ensureOwnEffectMap s3 ty;
                  bucket = (case tyMap property of None \<Rightarrow> [] | Some b \<Rightarrow> b)
              in Inr (set_effects s4 ty (Some (tyMap(property \<mapsto> bucket @ [effect]))))))"

text \<open>A fresh \<open>info\<close> object.\<close>

definition alloc_info :: "store \<Rightarrow> info \<Rightarrow> store \<times> nat" where
  "alloc_info s nfo =
     (s\<lparr>i_infos := (i_infos s)(i_nextInfo s := nfo), i_nextInfo := Suc (i_nextInfo s)\<rparr>,
      i_nextInfo s)"

text \<open>
  \<open>_createReadOnlyProperty(property, protectedSetter)\<close>. The protected setter
  \<open>_setFoo(value)\<close> it may install is \<open>setProperty s property value\<close>.
\<close>

definition createReadOnlyProperty :: "store \<Rightarrow> string \<Rightarrow> bool \<Rightarrow> error + store" where
  "createReadOnlyProperty s property protectedSetter = addPropertyEffect s property READ_ONLY None"

text \<open>\<open>_createObservedProperty(property, methodName)\<close>.\<close>

definition createObservedProperty :: "store \<Rightarrow> string \<Rightarrow> string \<Rightarrow> error + store" where
  "createObservedProperty s property mname =
     (let (s1, i) = alloc_info s \<lparr>methodName = mname, args = [], methodInfo = None,
                                  dynamicFn = False, lastRun = None\<rparr>
      in addPropertyEffect s1 property OBSERVE (Some (RunObserverEffect, Some i)))"

text \<open>
  A parsed method signature, the result of \<open>parseMethod\<close> (whose regular expressions
  are not part of this development).
\<close>

record signature =
  sig_methodName :: string
  sig_static :: bool
  sig_args :: "argdesc list"

text \<open>The loop of \<open>createMethodEffect\<close> over the arguments.\<close>

fun add_arg_effects ::
  "store \<Rightarrow> argdesc list \<Rightarrow> effect_type \<Rightarrow> effect_fn \<Rightarrow> nat \<Rightarrow> error + store" where
  "add_arg_effects s [] ty f i = Inr s"
| "add_arg_effects s (arg # rest) ty f i =
     (if \<not> a_literal arg then
        (case addPropertyEffect s (a_name arg) ty (Some (f, Some i)) of
           Inl e \<Rightarrow> Inl e
         | Inr s1 \<Rightarrow> add_arg_effects s1 rest ty f i)
      else add_arg_effects s rest ty f i)"

text \<open>\<open>createMethodEffect(model, sig, type, effectFn, methodInfo, dynamic)\<close>.\<close>

definition createMethodEffect ::
  "store \<Rightarrow> signature \<Rightarrow> effect_type \<Rightarrow> effect_fn \<Rightarrow> string option \<Rightarrow> bool \<Rightarrow> error + store" where
  "createMethodEffect s sg ty f mi dynamic =
     (let (s1, i) = alloc_info s \<lparr>methodName = sig_methodName sg, args = sig_args sg,
                                  methodInfo = mi, dynamicFn = dynamic, lastRun = None\<rparr>
      in case (if sig_static sg then addPropertyEffect s1 ''__static__'' ty (Some (f, Some i))
               else add_arg_effects s1 (sig_args sg) ty f i) of
           Inl e \<Rightarrow> Inl e
         | Inr s2 \<Rightarrow>
             if dynamic then addPropertyEffect s2 (sig_methodName sg) ty (Some (f, Some i))
             else Inr s2)"

definition createMethodObserver :: "store \<Rightarrow> signature \<Rightarrow> error + store" where
  "createMethodObserver s sg = createMethodEffect s sg OBSERVE RunMethodObserverEffect None False"

definition createComputedProperty :: "store \<Rightarrow> string \<Rightarrow> signature \<Rightarrow> error + store" where
  "createComputedProperty s property sg =
     createMethodEffect s sg COMPUTE RunComputedEffect (Some property) False"

section \<open>store.js\<close>

text \<open>One entry of the configuration, with its \<open>computed\<close> expression already parsed.\<close>

record propconfig =
  c_readOnly :: bool
  c_computed :: "signature option"
  c_observer :: "string option"

text \<open>\<open>_createPropertyFromConfig(name, info)\<close>.\<close>

definition createPropertyFromConfig :: "store \<Rightarrow> string \<Rightarrow> propconfig \<Rightarrow> error + store" where
  "createPropertyFromConfig s nm cfg =
     (let readOnly = (if c_computed cfg \<noteq> None then True else c_readOnly cfg) in
      case (case c_computed cfg of
              Some sg \<Rightarrow> (if \<not> hasReadOnlyEffect s nm then createComputedProperty s nm sg else Inr s)
            | None \<Rightarrow> Inr s) of
        Inl e \<Rightarrow> Inl e
      | Inr s1 \<Rightarrow>
          (case (if readOnly \<and> \<not> hasReadOnlyEffect s1 nm
                 then createReadOnlyProperty s1 nm (c_computed cfg = None) else Inr s1) of
             Inl e \<Rightarrow> Inl e
           | Inr s2 \<Rightarrow>
               (case c_observer cfg of
                  Some ob \<Rightarrow> createObservedProperty s2 nm ob
                | None \<Rightarrow> Inr s2)))"

text \<open>\<open>_finalizeConfig(properties)\<close>.\<close>

fun finalizeConfig :: "store \<Rightarrow> (string \<times> propconfig) list \<Rightarrow> error + store" where
  "finalizeConfig s [] = Inr s"
| "finalizeConfig s ((nm, cfg) # rest) =
     (case createPropertyFromConfig s nm cfg of
        Inl e \<Rightarrow> Inl e
      | Inr s1 \<Rightarrow> finalizeConfig s1 rest)"

text \<open>
  The instance the constructors leave before \<open>_finalizeConfig\<close>: the fields as
  \<open>_initializeProperties\<close> and the constructors of the three classes set them, and the
  methods of the configuration copied onto the instance.
\<close>

definition new_instance :: "(string \<Rightarrow> (jsval list \<Rightarrow> jsval) option) \<Rightarrow> store" where
  "new_instance methods =
     \<lparr>i_data = [], i_dataPending = None, i_dataOld = None, i_dataInvalid = False,
      i_asyncEffects = False, i_dataInitialized = False, i_dataPendingClients = None,
      i_dataFromAbove = False, i_dataLinkedPaths = None, i_dataInterim = None,
      i_dataInterimOld = None, i_runId = 0, i_propertyEffects = None,
      i_computeEffects = None, i_observeEffects = None, i_readOnly = None,
      i_infos = (\<lambda>i. \<lparr>methodName = [], args = [], methodInfo = None, dynamicFn = False,
                       lastRun = None\<rparr>),
      i_nextInfo = 0, i_methods = methods, i_unmanaged = [], i_heap = (\<lambda>r. None),
      i_nextRef = 0, effectUid = 0, i_calls = [], i_dispatched = []\<rparr>"

text \<open>\<open>new Store(properties, methods)\<close>.\<close>

definition Store :: "(string \<times> propconfig) list \<Rightarrow> (string \<Rightarrow> (jsval list \<Rightarrow> jsval) option) \<Rightarrow> error + store" where
  "Store properties methods = finalizeConfig (new_instance methods) properties"

text \<open>\<open>BatchedEffects.setProperties(props)\<close>.\<close>

fun setProperties_loop :: "store \<Rightarrow> props \<Rightarrow> error + store" where
  "setProperties_loop s [] = Inr s"
| "setProperties_loop s ((pth, val) # rest) =
     (if \<not> hasReadOnlyEffect s pth then
        (case setPathOrUnmanagedProperty s pth val of
           (s1, Some p1) \<Rightarrow>
             (if p1 \<noteq> [] then
                (case setPendingProperty s1 p1 val of
                   Inl e \<Rightarrow> Inl e
                 | Inr (s2, ch) \<Rightarrow> setProperties_loop s2 rest)
              else setProperties_loop s1 rest)
         | (s1, None) \<Rightarrow> setProperties_loop s1 rest)
      else setProperties_loop s rest)"

definition setProperties :: "store \<Rightarrow> props \<Rightarrow> (error + store) option" where
  "setProperties s prs =
     (case setProperties_loop s prs of
        Inl e \<Rightarrow> Some (Inl e)
      | Inr s1 \<Rightarrow> invalidateProperties s1)"

section \<open>Reading results\<close>

text \<open>
  A call returned normally (it neither threw nor ran forever), the instance it left and
  the value it returned.
\<close>

definition returned :: "(error + 'a) option \<Rightarrow> bool" where
  "returned r = (case r of Some (Inr x) \<Rightarrow> True | _ \<Rightarrow> False)"

definition store_of :: "(error + store) option \<Rightarrow> store" where
  "store_of r = (case r of Some (Inr s) \<Rightarrow> s | _ \<Rightarrow> new_instance (\<lambda>n. None))"

definition store_of2 :: "(error + store \<times> jsval) option \<Rightarrow> store" where
  "store_of2 r = (case r of Some (Inr (s, v)) \<Rightarrow> s | _ \<Rightarrow> new_instance (\<lambda>n. None))"

definition value_of2 :: "(error + store \<times> jsval) option \<Rightarrow> jsval" where
  "value_of2 r = (case r of Some (Inr (s, v)) \<Rightarrow> v | _ \<Rightarrow> Undefined)"

definition threw :: "(error + 'a) option \<Rightarrow> bool" where
  "threw r = (case r of Some (Inl e) \<Rightarrow> True | _ \<Rightarrow> False)"

text \<open>
  What a call on an instance leaves alone: the effect maps, the methods, the mode flags,
  the links, every field of every \<open>info\<close> but \<open>lastRun\<close>, and every object that was
  on the heap; \<open>effectUid\<close> only grows and an initialized instance stays initialized.
\<close>

definition frame :: "store \<Rightarrow> store \<Rightarrow> bool" where
  "frame s s' =
     (i_propertyEffects s' = i_propertyEffects s \<and> i_computeEffects s' = i_computeEffects s
      \<and> i_observeEffects s' = i_observeEffects s \<and> i_readOnly s' = i_readOnly s
      \<and> i_methods s' = i_methods s \<and> i_asyncEffects s' = i_asyncEffects s
      \<and> (i_dataInitialized s \<longrightarrow> i_dataInitialized s')
      \<and> i_dataLinkedPaths s' = i_dataLinkedPaths s \<and> i_nextInfo s' = i_nextInfo s
      \<and> (\<forall>j. (i_infos s' j)\<lparr>lastRun := None\<rparr> = (i_infos s j)\<lparr>lastRun := None\<rparr>)
      \<and> i_nextRef s \<le> i_nextRef s' \<and> (\<forall>r<i_nextRef s. i_heap s' r = i_heap s r)
      \<and> effectUid s \<le> effectUid s')"

section \<open>The normalization of \<open>start\<close> as the specification words it\<close>

text \<open>
  Section 4.7 of the specification: \<open>start < 0\<close> gives
  \<open>max(0, len + \<lceil>-start\<rceil> \<sqdot> -1)\<close>; non-integers are floored; a falsy \<open>start\<close> is
  coerced to 0. This definition follows those words, to be compared with
  \<open>splice_start\<close>, which follows the code.
\<close>

definition spec_splice_start :: "nat \<Rightarrow> jsnum \<Rightarrow> jsnum" where
  "spec_splice_start len start =
     (case start of
        NaN \<Rightarrow> Fin 0
      | Fin q \<Rightarrow> (if q < 0 then Fin (max 0 (of_nat len + of_int \<lceil>- q\<rceil> * (- 1)))
                  else Fin (of_int \<lfloor>q\<rfloor>)))"

section \<open>Example configurations\<close>

text \<open>
  The descriptor \<open>parseArg\<close> builds for an argument that is a property or a path
  (not a literal).
\<close>

definition path_arg :: "string \<Rightarrow> argdesc" where
  "path_arg a =
     (let structured = Path_isDeep a;
          wildcard = (structured \<and> drop (length a - 2) a = ''.*'')
      in \<lparr>a_name = (if wildcard then take (length a - 2) a else a), a_literal = False,
          a_value = Undefined, a_structured = structured, a_rootProperty = Path_root a,
          a_wildcard = wildcard\<rparr>)"

definition plain_prop :: propconfig where
  "plain_prop = \<lparr>c_readOnly = False, c_computed = None, c_observer = None\<rparr>"

text \<open>
  The instance a constructor call built (when it did not throw), and the same instance
  after \<open>ready()\<close>.
\<close>

definition is_ok :: "error + 'a \<Rightarrow> bool" where
  "is_ok r = (case r of Inr x \<Rightarrow> True | Inl e \<Rightarrow> False)"

definition constructed :: "error + store \<Rightarrow> store" where
  "constructed r = (case r of Inr s \<Rightarrow> s | Inl e \<Rightarrow> new_instance (\<lambda>n. None))"

definition started :: "error + store \<Rightarrow> store" where
  "started r = ready (constructed r)"

text \<open>
  An array property with an observer, as \<open>tourists\<close> in the repository's test:
  \<open>{tourists: {type: Array, observer: '_somePropChanged'}}\<close>, then \<open>ready()\<close> and
  \<open>set('tourists', [])\<close>.
\<close>

definition tourists_methods :: "string \<Rightarrow> (jsval list \<Rightarrow> jsval) option" where
  "tourists_methods n = (if n = ''_somePropChanged'' then Some (\<lambda>as. Undefined) else None)"

definition tourists_store :: store where
  "tourists_store =
     started (Store [(''tourists'', plain_prop\<lparr>c_observer := Some ''_somePropChanged''\<rparr>)]
                tourists_methods)"

definition tourists_ready :: "(error + store) option" where
  "tourists_ready =
     (let (s, r) = alloc tourists_store (Arr [Num (Fin 10), Num (Fin 20), Num (Fin 30)])
      in set_path s ''tourists'' r Undefined)"



text \<open>
  A diamond: \<open>{a: {}, q: {computed: 'sum(a, b)', observer: 'obs'}, b: {computed: 'ten(a)'}}\<close>
  with \<open>sum(a, b)\<close> returning \<open>a + b\<close> (or \<open>a\<close> while \<open>b\<close> is undefined) and
  \<open>ten(a)\<close> returning 10.
\<close>

definition diamond_methods :: "string \<Rightarrow> (jsval list \<Rightarrow> jsval) option" where
  "diamond_methods n =
     (if n = ''sum'' then
        Some (\<lambda>as. case as of
                      [Num (Fin x), Num (Fin y)] \<Rightarrow> Num (Fin (x + y))
                    | [Num (Fin x), Undefined] \<Rightarrow> Num (Fin x)
                    | _ \<Rightarrow> Undefined)
      else if n = ''ten'' then Some (\<lambda>as. Num (Fin 10))
      else if n = ''obs'' then Some (\<lambda>as. Undefined)
      else None)"

definition diamond_config :: "(string \<times> propconfig) list" where
  "diamond_config =
     [(''a'', plain_prop),
      (''q'', plain_prop\<lparr>c_computed :=
         Some \<lparr>sig_methodName = ''sum'', sig_static = False,
               sig_args = [path_arg ''a'', path_arg ''b'']\<rparr>,
         c_observer := Some ''obs''\<rparr>),
      (''b'', plain_prop\<lparr>c_computed :=
         Some \<lparr>sig_methodName = ''ten'', sig_static = False,
               sig_args = [path_arg ''a'']\<rparr>\<rparr>)]"

definition diamond_store :: store where
  "diamond_store = started (Store diamond_config diamond_methods)"


text \<open>
  A read-only property holding an object: \<open>{ro: {readOnly: true, observer: 'obs'}}\<close>,
  then \<open>ready()\<close>
  and the protected setter \<open>_setRo({})\<close>.
\<close>

definition readonly_methods :: "string \<Rightarrow> (jsval list \<Rightarrow> jsval) option" where
  "readonly_methods n = (if n = ''obs'' then Some (\<lambda>as. Undefined) else None)"

definition readonly_store :: store where
  "readonly_store =
     started (Store [(''ro'', plain_prop\<lparr>c_readOnly := True, c_observer := Some ''obs''\<rparr>)]
                readonly_methods)"

definition readonly_ready :: "(error + store) option" where
  "readonly_ready = (let (s, r) = alloc readonly_store (Obj []) in setProperty s ''ro'' r)"

text \<open>The instances the example calls leave.\<close>

definition tourists_state :: store where
  "tourists_state = store_of tourists_ready"

definition readonly_state :: store where
  "readonly_state = store_of readonly_ready"

section \<open>Reading the dispatch log\<close>

text \<open>
  The info addresses of a stretch of the dispatch log, the infos stamped with a run id,
  and the relation between the instance before and after a stretch of one
  \<open>runEffects\<close> pass: the stretch is appended to the log, carries the run id, names
  no info twice and none that was stamped before, and the stamped infos grow by exactly
  the infos it names.
\<close>

definition dispatched_infos :: "(nat \<times> nat option \<times> string) list \<Rightarrow> nat list" where
  "dispatched_infos ds = List.map_filter (\<lambda>d. fst (snd d)) ds"

definition stamped :: "store \<Rightarrow> nat \<Rightarrow> nat set" where
  "stamped s rid = {j. lastRun (i_infos s j) = Some rid}"

definition once :: "nat \<Rightarrow> store \<Rightarrow> store \<Rightarrow> (nat \<times> nat option \<times> string) list \<Rightarrow> bool" where
  "once rid s s' new =
     (i_dispatched s' = i_dispatched s @ new \<and> (\<forall>d\<in>set new. fst d = rid)
      \<and> distinct (dispatched_infos new)
      \<and> set (dispatched_infos new) \<inter> stamped s rid = {}
      \<and> stamped s' rid = stamped s rid \<union> set (dispatched_infos new))"

definition same_infos :: "store \<Rightarrow> store \<Rightarrow> bool" where
  "same_infos s s' = (i_infos s' = i_infos s \<and> i_dispatched s' = i_dispatched s)"

definition never_run :: "store \<Rightarrow> bool" where
  "never_run s = (\<forall>j. lastRun (i_infos s j) = None)"

section \<open>Reading the effect maps\<close>




definition make_effect :: "string \<Rightarrow> (effect_fn \<times> nat option) option \<Rightarrow> effect option" where
  "make_effect pth eff =
     (case eff of None \<Rightarrow> None
      | Some (f, io) \<Rightarrow> Some \<lparr>fx_path = pth, fx_fn = f, fx_info = io\<rparr>)"

section \<open>The cyclic configuration\<close>




section \<open>Observers of a changed property\<close>






definition new_calls :: "store \<Rightarrow> store \<Rightarrow> (call_kind \<times> string \<times> jsval list) list" where
  "new_calls s s' = drop (length (i_calls s)) (i_calls s')"

definition calls_grow :: "store \<Rightarrow> store \<Rightarrow> bool" where
  "calls_grow s s' = (take (length (i_calls s)) (i_calls s') = i_calls s)"



section \<open>The compute loop, pass by pass\<close>



section \<open>Well-formed observers\<close>


section \<open>The stages of the flush a write starts\<close>



section \<open>More example configurations\<close>











section \<open>Instances for splice notification\<close>





section \<open>Callbacks that write to the instance\<close>

text \<open>
  A user method is called with \<open>this\<close> bound to the instance
  (\<open>fn.apply(context, args)\<close>, \<open>fn.call(inst, value, old, property)\<close>), so besides
  returning a value its body may call the public API of the instance. A \<open>body\<close> says
  what the body of the method \<open>nm\<close>, called with the arguments \<open>as\<close>, leaves of the
  instance: \<open>None\<close> when it never returns, \<open>Inl\<close> when it throws. The value a
  method returns is still the one \<open>i_methods\<close> gives. \<open>quiet\<close> is the body of
  every method that leaves the instance alone.
\<close>

type_synonym body = "store \<Rightarrow> string \<Rightarrow> jsval list \<Rightarrow> (error + store) option"

definition quiet :: body where
  "quiet s nm as = Some (Inr s)"

text \<open>
  The effect functions and the dispatcher of \<open>batched-effects.js\<close> once more, statement
  by statement as above, with the body of each called method run at the call.
\<close>

definition runMethodEffect_act ::
  "body \<Rightarrow> store \<Rightarrow> string \<Rightarrow> jsval \<Rightarrow> jsval \<Rightarrow> info \<Rightarrow> (error + store \<times> jsval) option" where
  "runMethodEffect_act act s property val old nfo =
     (case i_methods s (methodName nfo) of
        Some f \<Rightarrow>
          (let (s1, as) = marshalArgs s (args nfo) property val in
           case act (s1\<lparr>i_calls := i_calls s1 @ [(MethodCall, methodName nfo, as)]\<rparr>)
                    (methodName nfo) as of
             None \<Rightarrow> None
           | Some (Inl e) \<Rightarrow> Some (Inl e)
           | Some (Inr s2) \<Rightarrow> Some (Inr (s2, f as)))
      | None \<Rightarrow> Some (Inr (s, Undefined)))"

definition runObserverEffect_act ::
  "body \<Rightarrow> store \<Rightarrow> string \<Rightarrow> jsval \<Rightarrow> jsval \<Rightarrow> info \<Rightarrow> (error + store) option" where
  "runObserverEffect_act act s property val old nfo =
     (case i_methods s (methodName nfo) of
        Some f \<Rightarrow>
          act (s\<lparr>i_calls := i_calls s @ [(ObserverCall, methodName nfo, [val, old, Str property])]\<rparr>)
              (methodName nfo) [val, old, Str property]
      | None \<Rightarrow> Some (Inr s))"

definition runMethodObserverEffect_act ::
  "body \<Rightarrow> store \<Rightarrow> string \<Rightarrow> jsval \<Rightarrow> jsval \<Rightarrow> info \<Rightarrow> (error + store) option" where
  "runMethodObserverEffect_act act s property val old nfo =
     (case runMethodEffect_act act s property val old nfo of
        None \<Rightarrow> None
      | Some (Inl e) \<Rightarrow> Some (Inl e)
      | Some (Inr (s1, result)) \<Rightarrow> Some (Inr s1))"

definition runComputedEffect_act ::
  "body \<Rightarrow> store \<Rightarrow> string \<Rightarrow> jsval \<Rightarrow> jsval \<Rightarrow> info \<Rightarrow> (error + store) option" where
  "runComputedEffect_act act s property val old nfo =
     (case runMethodEffect_act act s property val old nfo of
        None \<Rightarrow> None
      | Some (Inl e) \<Rightarrow> Some (Inl e)
      | Some (Inr (s1, result)) \<Rightarrow> Some (setPropertyFromComputation s1 (methodInfo nfo) result))"

definition run_fn_act ::
  "body \<Rightarrow> store \<Rightarrow> effect_fn \<Rightarrow> string \<Rightarrow> jsval \<Rightarrow> jsval \<Rightarrow> nat option \<Rightarrow> (error + store) option" where
  "run_fn_act act s f property val old io =
     (case io of
        None \<Rightarrow> Some (Inl TypeError)
      | Some i \<Rightarrow>
          (case f of
             RunObserverEffect \<Rightarrow> runObserverEffect_act act s property val old (i_infos s i)
           | RunMethodObserverEffect \<Rightarrow> runMethodObserverEffect_act act s property val old (i_infos s i)
           | RunComputedEffect \<Rightarrow> runComputedEffect_act act s property val old (i_infos s i)))"

fun run_fxs_act ::
  "body \<Rightarrow> store \<Rightarrow> effect option list \<Rightarrow> nat \<Rightarrow> string \<Rightarrow> jsval \<Rightarrow> (error + store \<times> bool) option" where
  "run_fxs_act act s [] rid prop old = Some (Inr (s, False))"
| "run_fxs_act act s (None # rest) rid prop old = Some (Inr (s, False))"
| "run_fxs_act act s (Some fx # rest) rid prop old =
     (if Path_matches (fx_path fx) prop
         \<and> (case fx_info fx of None \<Rightarrow> True | Some i \<Rightarrow> lastRun (i_infos s i) \<noteq> Some rid)
      then
        (case run_fn_act act (s\<lparr>i_dispatched := i_dispatched s @ [(rid, fx_info fx, prop)]\<rparr>)
                     (fx_fn fx) prop (pget (i_data s) prop) old (fx_info fx) of
           None \<Rightarrow> None
         | Some (Inl e) \<Rightarrow> Some (Inl e)
         | Some (Inr s1) \<Rightarrow>
             (let s2 = (case fx_info fx of
                          None \<Rightarrow> s1
                        | Some i \<Rightarrow> s1\<lparr>i_infos := (i_infos s1)(i := (i_infos s1 i)\<lparr>lastRun := Some rid\<rparr>)\<rparr>)
              in case run_fxs_act act s2 rest rid prop old of
                   None \<Rightarrow> None
                 | Some (Inl e) \<Rightarrow> Some (Inl e)
                 | Some (Inr (s3, r)) \<Rightarrow> Some (Inr (s3, True))))
      else run_fxs_act act s rest rid prop old)"

definition runEffectsForProperty_act ::
  "body \<Rightarrow> store \<Rightarrow> (string \<Rightarrow> effect option list option) \<Rightarrow> nat \<Rightarrow> string \<Rightarrow> jsval
   \<Rightarrow> (error + store \<times> bool) option" where
  "runEffectsForProperty_act act s effects rid prop old =
     (let rootProperty = Path_root prop in
      case effects rootProperty of
        None \<Rightarrow> Some (Inr (s, False))
      | Some fxs \<Rightarrow> run_fxs_act act s fxs rid prop old)"

fun run_props_act ::
  "body \<Rightarrow> store \<Rightarrow> (string \<Rightarrow> effect option list option) \<Rightarrow> nat \<Rightarrow> string list \<Rightarrow> (string \<Rightarrow> jsval)
   \<Rightarrow> (error + store \<times> bool) option" where
  "run_props_act act s effects rid [] oldOf = Some (Inr (s, False))"
| "run_props_act act s effects rid (prop # rest) oldOf =
     (case runEffectsForProperty_act act s effects rid prop (oldOf prop) of
        None \<Rightarrow> None
      | Some (Inl e) \<Rightarrow> Some (Inl e)
      | Some (Inr (s1, r1)) \<Rightarrow>
          (case run_props_act act s1 effects rid rest oldOf of
             None \<Rightarrow> None
           | Some (Inl e) \<Rightarrow> Some (Inl e)
           | Some (Inr (s2, r2)) \<Rightarrow> Some (Inr (s2, r1 \<or> r2))))"

definition runEffects_act ::
  "body \<Rightarrow> store \<Rightarrow> effect_type \<Rightarrow> props option \<Rightarrow> (string \<Rightarrow> jsval) \<Rightarrow> (error + store \<times> bool) option" where
  "runEffects_act act s ty prs oldOf =
     (case effects_of s ty of
        None \<Rightarrow> Some (Inr (s, False))
      | Some effects \<Rightarrow>
          (let rid = effectUid s in
           run_props_act act (s\<lparr>effectUid := Suc rid\<rparr>) effects rid
             (case prs of None \<Rightarrow> [] | Some ps \<Rightarrow> map fst ps) oldOf))"

text \<open>
  Two computed properties, \<open>{q: {computed: 'f(a, b)'}, r: {computed: 'g(c)'}}\<close>, where
  \<open>f\<close> returns \<open>0\<close> and \<open>g\<close> calls \<open>this.set('a', 9)\<close> before it returns \<open>0\<close>. The
  nested \<open>set\<close> flushes at once; the only method that flush calls is \<open>f\<close>, which is
  quiet. \<open>reentrant_pending\<close> is the instance after \<open>ready()\<close> and the three
  \<open>_setPendingProperty\<close> calls of \<open>setProperties({a: 1, c: 1, b: 1})\<close>,
  \<open>reentrant_flushing\<close> the instance when \<open>_flushProperties\<close> has taken the pending
  buffer, and \<open>reentrant_pass\<close> the first pass of \<open>runComputedEffects\<close> in that flush.
  \<open>passed\<close> reads the instance a pass left.
\<close>

definition reentrant_methods :: "string \<Rightarrow> (jsval list \<Rightarrow> jsval) option" where
  "reentrant_methods n =
     (if n = ''f'' then Some (\<lambda>as. Num (Fin 0))
      else if n = ''g'' then Some (\<lambda>as. Num (Fin 0))
      else None)"

definition reentrant_config :: "(string \<times> propconfig) list" where
  "reentrant_config =
     [(''q'', plain_prop\<lparr>c_computed :=
         Some \<lparr>sig_methodName = ''f'', sig_static = False,
               sig_args = [path_arg ''a'', path_arg ''b'']\<rparr>\<rparr>),
      (''r'', plain_prop\<lparr>c_computed :=
         Some \<lparr>sig_methodName = ''g'', sig_static = False,
               sig_args = [path_arg ''c'']\<rparr>\<rparr>)]"

definition reentrant_body :: body where
  "reentrant_body s nm as =
     (if nm = ''g'' then set_path s ''a'' (Num (Fin 9)) Undefined else Some (Inr s))"

definition reentrant_store :: store where
  "reentrant_store = started (Store reentrant_config reentrant_methods)"

definition reentrant_pending :: store where
  "reentrant_pending =
     projr (setProperties_loop reentrant_store
              [(''a'', Num (Fin 1)), (''c'', Num (Fin 1)), (''b'', Num (Fin 1))])"

definition reentrant_flushing :: store where
  "reentrant_flushing = reentrant_pending\<lparr>i_dataFromAbove := False, i_dataPending := None\<rparr>"

definition reentrant_pass :: "(error + store \<times> bool) option" where
  "reentrant_pass =
     runEffects_act reentrant_body reentrant_flushing COMPUTE (i_dataPending reentrant_pending)
       (\<lambda>p. Undefined)"

definition passed :: "(error + store \<times> bool) option \<Rightarrow> store" where
  "passed r = (case r of Some (Inr (s, r)) \<Rightarrow> s | _ \<Rightarrow> new_instance (\<lambda>n. None))"

section \<open>What the change cycle leaves alone\<close>

lemma frame_refl: "frame s s"
  by (simp add: frame_def)

lemma frame_trans: "frame s t \<Longrightarrow> frame t u \<Longrightarrow> frame s u"
  unfolding frame_def by (auto simp: less_le_trans)

lemma alloc_frame: "alloc s ob = (s', v) \<Longrightarrow> frame s s'"
  by (auto simp: alloc_def frame_def)

lemma setPendingProperty_base_frame: "setPendingProperty_base s p v = Inr (s', c) \<Longrightarrow> frame s s'"
  by (auto simp: setPendingProperty_base_def frame_def Let_def split: if_splits option.splits prod.splits)

lemma setPendingProperty_frame: "setPendingProperty s p v = Inr (s', c) \<Longrightarrow> frame s s'"
  unfolding setPendingProperty_def
  by (auto dest!: setPendingProperty_base_frame simp: frame_def split: if_splits)

lemma marshalArgs_frame: "marshalArgs s as p v = (s', xs) \<Longrightarrow> frame s s'"
proof (induction as arbitrary: s s' xs)
  case Nil
  then show ?case by (simp add: frame_refl)
next
  case (Cons a as)
  then show ?case
    by (auto simp: Let_def split: prod.splits if_splits dest!: alloc_frame intro: frame_trans frame_refl)
qed

lemma runMethodEffect_frame: "runMethodEffect s p v old nfo = (s', x) \<Longrightarrow> frame s s'"
  by (auto simp: runMethodEffect_def frame_def split: option.splits prod.splits dest!: marshalArgs_frame)

lemma runObserverEffect_frame: "frame s (runObserverEffect s p v old nfo)"
  by (auto simp: runObserverEffect_def frame_def split: option.splits)

lemma setPropertyFromComputation_frame: "setPropertyFromComputation s p v = Inr s' \<Longrightarrow> frame s s'"
  by (auto simp: setPropertyFromComputation_def Let_def frame_refl split: if_splits sum.splits dest: setPendingProperty_frame)
    (simp add: frame_def)

lemma run_fn_frame: "run_fn s f p v old io = Inr s' \<Longrightarrow> frame s s'"
  by (auto simp: run_fn_def runMethodObserverEffect_def runComputedEffect_def
        runObserverEffect_frame
      split: option.splits effect_fn.splits prod.splits
      dest: runMethodEffect_frame setPropertyFromComputation_frame intro: frame_trans)
   (metis runMethodEffect_frame prod.collapse)


lemma stamp_frame: "frame s (s\<lparr>i_infos := (i_infos s)(i := (i_infos s i)\<lparr>lastRun := x\<rparr>)\<rparr>)"
  by (simp add: frame_def)

lemma dispatched_frame: "frame s (s\<lparr>i_dispatched := d\<rparr>)"
  by (simp add: frame_def)

lemma run_fxs_frame: "run_fxs s fxs rid p old = Inr (s', r) \<Longrightarrow> frame s s'"
proof (induction s fxs rid p old arbitrary: s' r rule: run_fxs.induct)
  case (1 s rid pr old)
  then show ?case by (simp add: frame_refl)
next
  case (2 s rest rid pr old)
  then show ?case by (simp add: frame_refl)
next
  case (3 s fx rest rid pr old)
  show ?case
  proof (cases "Path_matches (fx_path fx) pr
         \<and> (case fx_info fx of None \<Rightarrow> True | Some i \<Rightarrow> lastRun (i_infos s i) \<noteq> Some rid)")
    case False
    with 3 show ?thesis by auto
  next
    case True
    with "3.prems" obtain s1 s3 r3 where
      f: "run_fn (s\<lparr>i_dispatched := i_dispatched s @ [(rid, fx_info fx, pr)]\<rparr>)
             (fx_fn fx) pr (pget (i_data s) pr) old (fx_info fx) = Inr s1"
      and g: "run_fxs (case fx_info fx of None \<Rightarrow> s1
                | Some i \<Rightarrow> s1\<lparr>i_infos := (i_infos s1)(i := (i_infos s1 i)\<lparr>lastRun := Some rid\<rparr>)\<rparr>)
               rest rid pr old = Inr (s3, r3)"
      and e: "s' = s3"
      by (auto simp: Let_def split: sum.splits)
    have a: "frame s s1"
      using run_fn_frame [OF f] dispatched_frame frame_trans by blast
    have b: "frame s1 (case fx_info fx of None \<Rightarrow> s1
                | Some i \<Rightarrow> s1\<lparr>i_infos := (i_infos s1)(i := (i_infos s1 i)\<lparr>lastRun := Some rid\<rparr>)\<rparr>)"
      by (auto split: option.splits simp: frame_refl stamp_frame)
    have c: "frame (case fx_info fx of None \<Rightarrow> s1
                | Some i \<Rightarrow> s1\<lparr>i_infos := (i_infos s1)(i := (i_infos s1 i)\<lparr>lastRun := Some rid\<rparr>)\<rparr>) s3"
      using "3.IH"(1) [OF True f refl g] .
    show ?thesis
      using a b c e frame_trans by blast
  qed
qed

lemma runEffectsForProperty_frame: "runEffectsForProperty s effects rid p old = Inr (s', r) \<Longrightarrow> frame s s'"
  by (auto simp: runEffectsForProperty_def Let_def frame_refl split: option.splits dest: run_fxs_frame)

lemma run_props_frame: "run_props s effects rid ps oldOf = Inr (s', r) \<Longrightarrow> frame s s'"
proof (induction ps arbitrary: s s' r)
  case Nil
  then show ?case by (simp add: frame_refl)
next
  case (Cons p ps)
  then show ?case
    by (auto split: sum.splits prod.splits dest!: runEffectsForProperty_frame intro: frame_trans)
qed

lemma runEffects_frame: "runEffects s ty prs oldOf = Inr (s', r) \<Longrightarrow> frame s s'"
proof -
  assume a: "runEffects s ty prs oldOf = Inr (s', r)"
  have u: "frame s (s\<lparr>effectUid := Suc (effectUid s)\<rparr>)"
    by (simp add: frame_def)
  from a show ?thesis
    by (auto simp: runEffects_def Let_def frame_refl split: option.splits
        dest!: run_props_frame intro: frame_trans [OF u])
qed

lemma pending_frame: "frame s (s\<lparr>i_dataPending := x\<rparr>)"
  by (simp add: frame_def)

lemma loop_frame_aux:
  assumes run: "runComputedEffects_loop s0 inp0 ch0 ol0 co0 = Some y0"
  shows "case y0 of Inl e \<Rightarrow> True | Inr (s', rest) \<Rightarrow> frame s0 s'"
proof (rule runComputedEffects_loop.raw_induct
    [where P = "\<lambda>s inp ch ol co y. case y of Inl e \<Rightarrow> True | Inr (s', rest) \<Rightarrow> frame s s'", OF _ run])
  fix loop s inp ch ol co y
  assume IH: "\<And>s inp ch ol co y. loop s inp ch ol co = Some y \<Longrightarrow>
                (case y of Inl e \<Rightarrow> True | Inr (s', rest) \<Rightarrow> frame s s')"
    and body: "(case runEffects s COMPUTE inp (\<lambda>p. Undefined) of
        Inl e \<Rightarrow> Some (Inl e)
      | Inr (s1, r) \<Rightarrow>
          if r then
            (case mixin ol (i_dataOld s1) of
               Inl e \<Rightarrow> Some (Inl e)
             | Inr oldProps' \<Rightarrow>
                 (case mixin ch (i_dataPending s1) of
                    Inl e \<Rightarrow> Some (Inl e)
                  | Inr changedProps' \<Rightarrow>
                      (case mixin (Some (case co of None \<Rightarrow> [] | Some c \<Rightarrow> c))
                                  (i_dataPending s1) of
                         Inl e \<Rightarrow> Some (Inl e)
                       | Inr computedProps' \<Rightarrow>
                           loop (s1\<lparr>i_dataPending := None\<rparr>)
                             (i_dataPending s1) changedProps' oldProps' computedProps')))
          else Some (Inr (s1, ch, ol, co))) = Some y"
  show "case y of Inl e \<Rightarrow> True | Inr (s', rest) \<Rightarrow> frame s s'"
  proof (cases "runEffects s COMPUTE inp (\<lambda>p. Undefined)")
    case (Inl e)
    with body show ?thesis by auto
  next
    case (Inr sr)
    obtain s1 r where sr: "sr = (s1, r)" by (cases sr)
    have f1: "frame s s1"
      using Inr sr runEffects_frame by blast
    show ?thesis
    proof (cases r)
      case False
      with body Inr sr f1 show ?thesis by auto
    next
      case True
      show ?thesis
      proof (cases y)
        case (Inl e)
        then show ?thesis by simp
      next
        case (Inr res)
        obtain s' rest where res: "res = (s', rest)" by (cases res)
        from body \<open>runEffects s COMPUTE inp (\<lambda>p. Undefined) = Inr sr\<close> sr True Inr
        obtain i c o2 c2 where L: "loop (s1\<lparr>i_dataPending := None\<rparr>) i c o2 c2 = Some y"
          by (auto split: sum.splits)
        have "case y of Inl e \<Rightarrow> True | Inr (s', rest) \<Rightarrow> frame (s1\<lparr>i_dataPending := None\<rparr>) s'"
          by (rule IH [OF L])
        with Inr res have "frame (s1\<lparr>i_dataPending := None\<rparr>) s'"
          by simp
        with f1 have "frame s s'"
          using frame_trans pending_frame by blast
        with Inr res show ?thesis by simp
      qed
    qed
  qed
qed

lemma loop_frame:
  "runComputedEffects_loop s inp ch ol co = Some (Inr (s', rest)) \<Longrightarrow> frame s s'"
  using loop_frame_aux [of s inp ch ol co "Inr (s', rest)"] by simp


lemma runComputedEffects_frame:
  "runComputedEffects s ch ol = Some (Inr (s', rest)) \<Longrightarrow> frame s s'"
  by (auto simp: runComputedEffects_def frame_refl split: if_splits dest: loop_frame)

lemma computeLinkedPaths_frame: "computeLinkedPaths s ch co = (s', rest) \<Longrightarrow> frame s s'"
  by (auto simp: computeLinkedPaths_def Let_def frame_def split: option.splits prod.splits)

lemma notifyProperties_frame: "notifyProperties s ch co ol = Inr (s', rest) \<Longrightarrow> frame s s'"
  by (auto simp: notifyProperties_def Let_def frame_def split: option.splits sum.splits if_splits)

lemma flushClients_frame: "frame s (flushClients s)"
  by (auto simp: flushClients_def frame_def split: option.splits)

lemma propertiesChanged_frame:
  assumes "propertiesChanged s ch ol = Some (Inr s')"
  shows "frame s s'"
proof -
  from assms obtain s1 ch1 ol1 co1 where
    a: "runComputedEffects s ch ol = Some (Inr (s1, ch1, ol1, co1))"
    by (auto simp: propertiesChanged_def split: option.splits sum.splits)
  obtain s2 ch2 co2 where b: "computeLinkedPaths s1 ch1 co1 = (s2, ch2, co2)"
    by (cases "computeLinkedPaths s1 ch1 co1") auto
  from assms a b obtain s3 res where c: "notifyProperties s2 ch2 co2 ol1 = Inr (s3, res)"
    by (auto simp: propertiesChanged_def split: option.splits sum.splits)
  have f3: "frame s s3"
    using runComputedEffects_frame [OF a] computeLinkedPaths_frame [OF b]
      notifyProperties_frame [OF c] frame_trans by blast
  show ?thesis
  proof (cases res)
    case None
    with assms a b c f3 show ?thesis
      by (simp add: propertiesChanged_def)
  next
    case (Some pr)
    obtain ch3 ol3 where pr: "pr = (ch3, ol3)" by (cases pr)
    from assms a b c Some pr obtain r where
      d: "runEffects (flushClients s3) OBSERVE ch3
            (\<lambda>p. case ol3 of None \<Rightarrow> Null | Some ol \<Rightarrow> pget ol p) = Inr (s', r)"
      by (auto simp: propertiesChanged_def split: sum.splits)
    show ?thesis
      using f3 flushClients_frame [of s3] runEffects_frame [OF d] frame_trans by blast
  qed
qed

lemma flushProperties_frame:
  assumes "flushProperties s fa = Some (Inr s')"
  shows "frame s s'"
proof -
  let ?s1 = "if \<not> i_dataInitialized s then ready s else s"
  have r: "frame s ?s1"
    by (simp add: frame_def ready_def)
  show ?thesis
  proof (cases "i_dataPending ?s1 \<noteq> None \<or> i_dataPendingClients ?s1 \<noteq> None")
    case False
    with assms r show ?thesis
      by (auto simp: flushProperties_def Let_def split: if_splits)
  next
    case True
    with assms obtain s2 where
      a: "propertiesChanged (?s1\<lparr>i_dataFromAbove := fa, i_dataPending := None\<rparr>)
            (i_dataPending ?s1) (i_dataOld ?s1) = Some (Inr s2)"
      and e: "s' = s2\<lparr>i_dataFromAbove := False\<rparr>"
      by (auto simp: flushProperties_def flushProperties_base_def Let_def
          split: if_splits option.splits sum.splits)
    have "frame ?s1 (?s1\<lparr>i_dataFromAbove := fa, i_dataPending := None\<rparr>)"
      by (simp add: frame_def)
    moreover have "frame s2 s'"
      by (simp add: e frame_def)
    ultimately show ?thesis
      using r propertiesChanged_frame [OF a] frame_trans by blast
  qed
qed

lemma invalidateProperties_frame: "invalidateProperties s = Some (Inr s') \<Longrightarrow> frame s s'"
  by (auto simp: invalidateProperties_def frame_refl split: if_splits dest: flushProperties_frame)
     (simp add: frame_def)

lemma setProperty_frame: "setProperty s p v = Some (Inr s') \<Longrightarrow> frame s s'"
  by (auto simp: setProperty_def split: sum.splits prod.splits if_splits
      dest!: setPendingProperty_frame invalidateProperties_frame intro: frame_trans)

section \<open>Registration\<close>

lemma same_infos_refl: "same_infos s s" by (simp add: same_infos_def)
lemma same_infos_trans: "same_infos s t \<Longrightarrow> same_infos t u \<Longrightarrow> same_infos s u"
  by (simp add: same_infos_def)

lemma alloc_same_infos: "alloc s ob = (s', v) \<Longrightarrow> same_infos s s'"
  by (auto simp: alloc_def same_infos_def)

lemma setPendingProperty_same_infos: "setPendingProperty s p v = Inr (s', c) \<Longrightarrow> same_infos s s'"
  unfolding setPendingProperty_def setPendingProperty_base_def
  by (auto simp: same_infos_def Let_def split: if_splits option.splits prod.splits)

lemma marshalArgs_same_infos: "marshalArgs s as p v = (s', xs) \<Longrightarrow> same_infos s s'"
proof (induction as arbitrary: s s' xs)
  case Nil
  then show ?case by (simp add: same_infos_refl)
next
  case (Cons a as)
  then show ?case
    by (auto simp: Let_def split: prod.splits if_splits dest!: alloc_same_infos
        intro: same_infos_trans same_infos_refl)
qed

lemma runMethodEffect_same_infos: "runMethodEffect s p v old nfo = (s', x) \<Longrightarrow> same_infos s s'"
  by (auto simp: runMethodEffect_def same_infos_def split: option.splits prod.splits
      dest!: marshalArgs_same_infos)

lemma run_fn_same_infos: "run_fn s f p v old io = Inr s' \<Longrightarrow> same_infos s s'"
proof (cases io)
  case None
  assume "run_fn s f p v old io = Inr s'"
  with None show ?thesis by (simp add: run_fn_def)
next
  case (Some i)
  assume a: "run_fn s f p v old io = Inr s'"
  obtain s1 x where m: "runMethodEffect s p v old (i_infos s i) = (s1, x)"
    by (cases "runMethodEffect s p v old (i_infos s i)") auto
  note m1 = runMethodEffect_same_infos [OF m]
  show ?thesis
  proof (cases f)
    case RunObserverEffect
    with a Some show ?thesis
      by (auto simp: run_fn_def runObserverEffect_def same_infos_def split: option.splits)
  next
    case RunMethodObserverEffect
    with a Some m m1 show ?thesis
      by (auto simp: run_fn_def runMethodObserverEffect_def)
  next
    case RunComputedEffect
    with a Some m have "setPropertyFromComputation s1 (methodInfo (i_infos s i)) x = Inr s'"
      by (simp add: run_fn_def runComputedEffect_def)
    then have "same_infos s1 s'"
      by (auto simp: setPropertyFromComputation_def Let_def same_infos_def
          split: if_splits sum.splits dest!: setPendingProperty_same_infos)
    with m1 show ?thesis by (rule same_infos_trans)
  qed
qed


lemma effects_of_set_effects:
  "effects_of (set_effects s ty m) ty' = (if ty' = ty then m else effects_of s ty')"
  by (cases ty; cases ty') (simp_all add: set_effects_def)

lemma saveAccessorValue_frame: "saveAccessorValue s p = Inr s' \<Longrightarrow> frame s s'"
  by (auto simp: saveAccessorValue_def Let_def frame_refl split: if_splits sum.splits dest: setPendingProperty_frame)

lemma i_infos_set_effects [simp]: "i_infos (set_effects s ty m) = i_infos s"
  by (cases ty) (simp_all add: set_effects_def)

lemma i_methods_set_effects [simp]: "i_methods (set_effects s ty m) = i_methods s"
  by (cases ty) (simp_all add: set_effects_def)

lemma saveAccessorValue_keeps:
  assumes "saveAccessorValue s p = Inr s'"
  shows "i_infos s' = i_infos s \<and> effects_of s' ty = effects_of s ty \<and> i_methods s' = i_methods s"
proof -
  from assms have "s' = s \<or> (\<exists>v c. setPendingProperty s p v = Inr (s', c))"
    by (auto simp: saveAccessorValue_def Let_def split: if_splits sum.splits)
  then show ?thesis
  proof
    assume "s' = s" then show ?thesis by simp
  next
    assume "\<exists>v c. setPendingProperty s p v = Inr (s', c)"
    then obtain v c where a: "setPendingProperty s p v = Inr (s', c)" by blast
    from setPendingProperty_frame [OF a] setPendingProperty_same_infos [OF a]
    show ?thesis by (cases ty) (simp_all add: frame_def same_infos_def)
  qed
qed

lemma addPropertyEffect_shape:
  assumes run: "addPropertyEffect s pth ty eff = Inr s'"
  shows "\<exists>s3. i_infos s3 = i_infos s \<and> i_methods s3 = i_methods s
             \<and> (\<forall>ty'. ty' \<noteq> ANY \<longrightarrow> effects_of s3 ty' = effects_of s ty')
             \<and> s' = set_effects (fst (ensureOwnEffectMap s3 ty)) ty
                     (Some ((snd (ensureOwnEffectMap s3 ty))(Path_root pth \<mapsto>
                        (case snd (ensureOwnEffectMap s3 ty) (Path_root pth) of
                           None \<Rightarrow> [] | Some b \<Rightarrow> b) @ [make_effect pth eff])))"
proof -
  let ?property = "Path_root pth"
  obtain s1 anyMap where e: "ensureOwnEffectMap s ANY = (s1, anyMap)"
    by (cases "ensureOwnEffectMap s ANY") auto
  have k1: "i_infos s1 = i_infos s" "i_methods s1 = i_methods s"
    "\<And>ty'. ty' \<noteq> ANY \<Longrightarrow> effects_of s1 ty' = effects_of s ty'"
    using e by (auto simp: ensureOwnEffectMap_def effects_of_set_effects split: option.splits)
  let ?acc = "case anyMap ?property of
                 None \<Rightarrow>
                   (case createPropertyAccessor (set_effects s1 ANY (Some (anyMap(?property \<mapsto> []))))
                           ?property (ty = READ_ONLY) of
                      Inl e \<Rightarrow> Inl e
                    | Inr s2 \<Rightarrow> Inr (s2, []))
               | Some fxs \<Rightarrow> Inr (s1, fxs)"
  from run e obtain s2 fxs where acc: "?acc = Inr (s2, fxs)"
    by (auto simp: addPropertyEffect_def Let_def split: sum.splits)
  have k2: "i_infos s2 = i_infos s \<and> i_methods s2 = i_methods s \<and> (\<forall>ty'. ty' \<noteq> ANY \<longrightarrow> effects_of s2 ty' = effects_of s ty')"
  proof (cases "anyMap ?property")
    case (Some b)
    with acc k1 show ?thesis by auto
  next
    case None
    with acc have "saveAccessorValue (set_effects s1 ANY (Some (anyMap(?property \<mapsto> [])))) ?property
                     = Inr s2"
      by (auto simp: createPropertyAccessor_def split: sum.splits)
    from saveAccessorValue_keeps [OF this] k1 show ?thesis
      by (auto simp: effects_of_set_effects)
  qed
  let ?s3 = "case make_effect pth eff of
                          None \<Rightarrow> s2
                        | Some fx \<Rightarrow>
                            (case i_propertyEffects s2 of
                               None \<Rightarrow> s2
                             | Some m \<Rightarrow> set_effects s2 ANY (Some (m(?property \<mapsto> fxs @ [Some fx]))))"
  have k3: "i_infos ?s3 = i_infos s \<and> i_methods ?s3 = i_methods s \<and> (\<forall>ty'. ty' \<noteq> ANY \<longrightarrow> effects_of ?s3 ty' = effects_of s ty')"
    using k2 by (auto simp: effects_of_set_effects split: option.splits)
  have me: "(case eff of None \<Rightarrow> None
                | Some (f, io) \<Rightarrow> Some \<lparr>fx_path = pth, fx_fn = f, fx_info = io\<rparr>) = make_effect pth eff"
    by (simp add: make_effect_def)
  have "s' = set_effects (fst (ensureOwnEffectMap ?s3 ty)) ty
                     (Some ((snd (ensureOwnEffectMap ?s3 ty))(?property \<mapsto>
                        (case snd (ensureOwnEffectMap ?s3 ty) ?property of
                           None \<Rightarrow> [] | Some b \<Rightarrow> b) @ [make_effect pth eff])))"
  proof (cases "anyMap ?property")
    case (Some b)
    with acc have "s2 = s1" "fxs = b" by auto
    with run Some show ?thesis
      by (cases "make_effect pth eff"; cases "i_propertyEffects s1")
         (simp_all add: addPropertyEffect_def Let_def e me split_beta)
  next
    case None
    with acc have c: "createPropertyAccessor (set_effects s1 ANY (Some (anyMap(?property \<mapsto> []))))
                           ?property (ty = READ_ONLY) = Inr s2" and f: "fxs = []"
      by (auto split: sum.splits)
    with run None show ?thesis
      by (cases "make_effect pth eff"; cases "i_propertyEffects s2")
         (simp_all add: addPropertyEffect_def Let_def e me split_beta)
  qed
  with k3 show ?thesis by blast
qed

lemma ensureOwnEffectMap_keeps:
  "i_infos (fst (ensureOwnEffectMap s ty)) = i_infos s"
  "i_methods (fst (ensureOwnEffectMap s ty)) = i_methods s"
  "ty' \<noteq> ty \<Longrightarrow> effects_of (fst (ensureOwnEffectMap s ty)) ty' = effects_of s ty'"
  "snd (ensureOwnEffectMap s ty) = (case effects_of s ty of None \<Rightarrow> (\<lambda>p. None) | Some m \<Rightarrow> m)"
  by (auto simp: ensureOwnEffectMap_def effects_of_set_effects split: option.splits)

lemma addPropertyEffect_infos: "addPropertyEffect s pth ty eff = Inr s' \<Longrightarrow> i_infos s' = i_infos s"
  by (drule addPropertyEffect_shape) (auto simp: ensureOwnEffectMap_keeps)






lemma addPropertyEffect_map:
  assumes "addPropertyEffect s pth ty eff = Inr s'" "ty' \<noteq> ANY"
  shows "effects_of s' ty' =
           (if ty' = ty then
              Some ((case effects_of s ty of None \<Rightarrow> (\<lambda>p. None) | Some m \<Rightarrow> m)(Path_root pth \<mapsto>
                 (case (case effects_of s ty of None \<Rightarrow> (\<lambda>p. None) | Some m \<Rightarrow> m) (Path_root pth) of
                    None \<Rightarrow> [] | Some b \<Rightarrow> b) @ [make_effect pth eff]))
            else effects_of s ty')"
proof -
  from addPropertyEffect_shape [OF assms(1)] obtain s3 where
    a: "\<forall>ty'. ty' \<noteq> ANY \<longrightarrow> effects_of s3 ty' = effects_of s ty'"
    and b: "s' = set_effects (fst (ensureOwnEffectMap s3 ty)) ty
                     (Some ((snd (ensureOwnEffectMap s3 ty))(Path_root pth \<mapsto>
                        (case snd (ensureOwnEffectMap s3 ty) (Path_root pth) of
                           None \<Rightarrow> [] | Some b \<Rightarrow> b) @ [make_effect pth eff])))"
    by blast
  show ?thesis
  proof (cases "ty' = ty")
    case True
    with assms(2) a have "effects_of s3 ty = effects_of s ty" by simp
    with True show ?thesis
      by (simp add: b effects_of_set_effects ensureOwnEffectMap_keeps)
  next
    case False
    with assms(2) a show ?thesis
      by (simp add: b effects_of_set_effects ensureOwnEffectMap_keeps)
  qed
qed

lemma addPropertyEffect_readOnly:
  assumes "addPropertyEffect s pth ty eff = Inr s'"
  shows "(hasReadOnlyEffect s k \<longrightarrow> hasReadOnlyEffect s' k)
       \<and> (ty = READ_ONLY \<longrightarrow> hasReadOnlyEffect s' (Path_root pth))"
  using addPropertyEffect_map [OF assms, of READ_ONLY]
  by (auto simp: hasReadOnlyEffect_def hasPropertyEffect_def split: option.splits)

section \<open>The change predicate\<close>






section \<open>Splice notification\<close>

lemma returned_store_of: "returned r \<Longrightarrow> r = Some (Inr (store_of r))"
  by (auto simp: returned_def store_of_def split: option.splits sum.splits)

lemma returned_store_of2: "returned r \<Longrightarrow> \<exists>v. r = Some (Inr (store_of2 r, v))"
  by (auto simp: returned_def store_of2_def split: option.splits sum.splits)

lemma array_at_Ref: "array_at s v = Inr (r, xs) \<Longrightarrow> v = Ref r \<and> i_heap s r = Some (Arr xs)"
  by (auto simp: array_at_def split: jsval.splits option.splits jsobj.splits)

lemma alloc_heap: "alloc s ob = (s', v) \<Longrightarrow> v = Ref (i_nextRef s) \<and> i_heap s' (i_nextRef s) = Some ob \<and> i_nextRef s' = Suc (i_nextRef s)
   \<and> i_data s' = i_data s"
  by (auto simp: alloc_def)

lemma frame_heap: "frame s s' \<Longrightarrow> r < i_nextRef s \<Longrightarrow> i_heap s' r = i_heap s r"
  by (simp add: frame_def)

lemma frame_nextRef: "frame s s' \<Longrightarrow> i_nextRef s \<le> i_nextRef s'"
  by (simp add: frame_def)

lemma notifySplices_fn_result:
  assumes "notifySplices_fn s array p splices = Some (Inr s')"
  shows "\<exists>s2 s3 len.
           setProperty (fst (alloc s (Obj [(''indexSplices'', splices)]))) (p @ ''.splices'') (Ref (i_nextRef s)) = Some (Inr s2)
         \<and> length_of (i_heap s2) array = Inr len
         \<and> setProperty s2 (p @ ''.length'') len = Some (Inr s3)
         \<and> pget (i_data s') (p @ ''.splices'') = Ref (i_nextRef s3)
         \<and> i_heap s' (i_nextRef s3) = Some (Obj [(''indexSplices'', Null)])
         \<and> frame s s'"
proof -
  obtain s1 ob where a: "alloc s (Obj [(''indexSplices'', splices)]) = (s1, ob)"
    by (cases "alloc s (Obj [(''indexSplices'', splices)])") auto
  from assms a obtain s2 where b: "setProperty s1 (p @ ''.splices'') ob = Some (Inr s2)"
    by (auto simp: notifySplices_fn_def Let_def split: option.splits sum.splits)
  from assms a b obtain len where c: "length_of (i_heap s2) array = Inr len"
    by (auto simp: notifySplices_fn_def Let_def split: option.splits sum.splits)
  from assms a b c obtain s3 where d: "setProperty s2 (p @ ''.length'') len = Some (Inr s3)"
    by (auto simp: notifySplices_fn_def Let_def split: option.splits sum.splits)
  obtain s4 nulled where e: "alloc s3 (Obj [(''indexSplices'', Null)]) = (s4, nulled)"
    by (cases "alloc s3 (Obj [(''indexSplices'', Null)])") auto
  from assms a b c d e have f: "s' = s4\<lparr>i_data := pset (i_data s4) (p @ ''.splices'') nulled\<rparr>"
    by (simp add: notifySplices_fn_def Let_def)
  have g: "pget (pset ps k v) k = v" for ps k v
    by (induction ps) (auto simp: pget_def)
  have fr: "frame s s4"
    using alloc_frame [OF a] setProperty_frame [OF b] setProperty_frame [OF d] alloc_frame [OF e]
      frame_trans by blast
  have "frame s4 s'" by (simp add: f frame_def)
  with fr have "frame s s'" using frame_trans by blast
  with a b c d e f g alloc_heap [OF a] alloc_heap [OF e] show ?thesis
    by auto
qed


section \<open>The start index of \<open>splice\<close>\<close>

lemma returned_value_of2: "returned r \<Longrightarrow> r = Some (Inr (store_of2 r, value_of2 r))"
  by (auto simp: returned_def store_of2_def value_of2_def split: option.splits sum.splits)

lemma notifySplice_record:
  assumes "notifySplice s array p index added removed = Some (Inr s')"
  shows "i_heap s' (i_nextRef s) =
           Some (Obj [(''index'', index), (''addedCount'', added), (''removed'', removed),
                      (''object'', array), (''type'', Str ''splice'')])"
proof -
  let ?rec = "Obj [(''index'', index), (''addedCount'', added), (''removed'', removed),
                      (''object'', array), (''type'', Str ''splice'')]"
  obtain s1 rec1 where a: "alloc s ?rec = (s1, rec1)"
    by (cases "alloc s ?rec") auto
  obtain s2 splices where b: "alloc s1 (Arr [rec1]) = (s2, splices)"
    by (cases "alloc s1 (Arr [rec1])") auto
  from assms a b have c: "notifySplices_fn s2 array p splices = Some (Inr s')"
    by (simp add: notifySplice_def)
  from notifySplices_fn_result [OF c] have "frame s2 s'" by blast
  with alloc_frame [OF b] have "frame s1 s'" using frame_trans by blast
  moreover have "i_nextRef s < i_nextRef s1" "i_heap s1 (i_nextRef s) = Some ?rec"
    using alloc_heap [OF a] by auto
  ultimately show ?thesis
    by (simp add: frame_heap)
qed

lemma splice_start_cases:
  "splice_start len NaN = Fin 0"
  "0 \<le> q \<Longrightarrow> splice_start len (Fin q) = Fin (of_int \<lfloor>q\<rfloor>)"
  "q < 0 \<Longrightarrow> splice_start len (Fin q) = Fin (of_nat len - of_int \<lfloor>- q\<rfloor>)"
  by (auto simp: splice_start_def Let_def)

text \<open>
  C7, as the code has it: \<open>splice(path, start, deleteCount, ...items)\<close> on an array of
  length \<open>len\<close> normalizes a negative \<open>start\<close> that reaches back no further than
  the beginning of the array to \<open>len - floor(-start)\<close> (the floor of \<open>-start\<close>, not
  its ceiling), floors a non-negative \<open>start\<close>, and turns a \<open>start\<close> that is
  \<open>NaN\<close> (or comes out as 0) into 0; when a splice record is emitted, its \<open>index\<close>
  field is this normalized start.
\<close>

theorem splice_index:
  assumes arr: "array_at s (Path_get (i_heap s) (inst_get s) p) = Inr (r, xs)"
    and run: "splice s p start deleteCount items = Some (Inr (s', ret))"
    and emitted: "items \<noteq> [] \<or> fst (native_splice xs (splice_start (length xs) start) deleteCount items) \<noteq> []"
  shows "i_heap s' (Suc (i_nextRef s)) =
           Some (Obj [(''index'', Num (splice_start (length xs) start)),
                      (''addedCount'', num_of_nat (length items)),
                      (''removed'', ret), (''object'', Ref r), (''type'', Str ''splice'')])
         \<and> splice_start (length xs) NaN = Fin 0
         \<and> (0 \<le> q \<longrightarrow> splice_start (length xs) (Fin q) = Fin (of_int \<lfloor>q\<rfloor>))
         \<and> (q < 0 \<and> \<lfloor>- q\<rfloor> \<le> int (length xs) \<longrightarrow>
              splice_start (length xs) (Fin q) = Fin (of_nat (length xs) - of_int \<lfloor>- q\<rfloor>))"
proof -
  let ?start1 = "splice_start (length xs) start"
  obtain removedItems xs' where ns: "native_splice xs ?start1 deleteCount items = (removedItems, xs')"
    by (cases "native_splice xs ?start1 deleteCount items") auto
  obtain s2 ret' where al: "alloc (write_array s r xs') (Arr removedItems) = (s2, ret')"
    by (cases "alloc (write_array s r xs') (Arr removedItems)") auto
  from emitted ns have em: "items \<noteq> [] \<or> removedItems \<noteq> []" by simp
  from run arr ns al em have
    n: "notifySplice s2 (Path_get (i_heap s) (inst_get s) p) p (Num ?start1) (num_of_nat (length items)) ret'
          = Some (Inr s')" and rr: "ret = ret'"
    by (auto simp: splice_def Let_def split: option.splits sum.splits if_splits)
  have nr: "i_nextRef s2 = Suc (i_nextRef s)"
    using alloc_heap [OF al] by (simp add: write_array_def)
  from notifySplice_record [OF n] nr rr array_at_Ref [OF arr] splice_start_cases
  show ?thesis by auto
qed

theorem splice_index_witness:
  "i_heap (store_of2 (splice tourists_state ''tourists'' (Fin (- 3 / 2)) (Fin 1) []))
       (Suc (i_nextRef tourists_state)) =
     Some (Obj [(''index'', Num (Fin 2)), (''addedCount'', Num (Fin 0)),
                (''removed'', value_of2 (splice tourists_state ''tourists'' (Fin (- 3 / 2)) (Fin 1) [])),
                (''object'', Ref 0), (''type'', Str ''splice'')])
   \<and> splice_start 3 NaN = Fin 0
   \<and> splice_start 3 (Fin (5 / 2)) = Fin 2
   \<and> splice_start 3 (Fin (- 3 / 2)) = Fin 2"
proof -
  let ?xs = "[Num (Fin 10), Num (Fin 20), Num (Fin 30)]"
  let ?R = "splice tourists_state ''tourists'' (Fin (- 3 / 2)) (Fin 1) []"
  have h1: "array_at tourists_state (Path_get (i_heap tourists_state) (inst_get tourists_state) ''tourists'')
              = Inr (0, ?xs)"
    by code_simp
  have "returned ?R"
    by code_simp
  then have h2: "?R = Some (Inr (store_of2 ?R, value_of2 ?R))"
    by (rule returned_value_of2)
  have h3: "([]::jsval list) \<noteq> [] \<or> fst (native_splice ?xs (splice_start (length ?xs) (Fin (- 3 / 2))) (Fin 1) []) \<noteq> []"
    by code_simp
  have f1: "\<lfloor>(3::rat) / 2\<rfloor> = 1" by linarith
  have f2: "\<lfloor>(5::rat) / 2\<rfloor> = 2" by linarith
  have l: "length ?xs = 3" by simp
  show ?thesis
    using splice_index [OF h1 h2 h3, of "- 3 / 2", unfolded l]
      splice_index [OF h1 h2 h3, of "5 / 2", unfolded l]
    by (simp add: f1 f2 num_of_nat_def)
qed

text \<open>
  C7 as the specification words it fails for a fractional negative \<open>start\<close>: on an
  array of length 3, \<open>start = -1.5\<close> is normalized to 2 by the code, and to 1 by the
  formula \<open>max(0, len + \<lceil>-start\<rceil> \<sqdot> -1)\<close>.
\<close>

theorem splice_start_counterexample:
  "splice_start 3 (Fin (- 3 / 2)) = Fin 2 \<and> spec_splice_start 3 (Fin (- 3 / 2)) = Fin 1"
  by code_simp

section \<open>Array mutators on a missing path\<close>

lemma Path_walk_missing:
  "\<not> truthy (Path_walk h v pre) \<Longrightarrow> Path_walk h v (pre @ k # post) = Undefined"
  by (induction pre arbitrary: v) auto

lemma threw_TypeError: "threw r \<Longrightarrow> r = Some (Inl TypeError)"
  by (auto simp: threw_def split: option.splits sum.splits) (metis error.exhaust)

text \<open>
  C5, as the code has it: when the path of an array mutator resolves to \<open>undefined\<close>
  (a segment is missing, the array does not exist), each of \<open>push\<close>, \<open>pop\<close>,
  \<open>shift\<close>, \<open>unshift\<close>, \<open>splice\<close> and \<open>spliceByValue\<close> throws a
  \<open>TypeError\<close> (at the read of \<open>array.length\<close> or of the array's method, whichever
  the mutator does first); and a deep \<open>get\<close> whose walk meets a
  missing (falsy) value before its last segment returns \<open>undefined\<close>.
\<close>

theorem mutators_throw_when_missing:
  assumes missing: "Path_get (i_heap s) (inst_get s) p = Undefined"
  shows "push s p items = Some (Inl TypeError)
       \<and> pop s p = Some (Inl TypeError)
       \<and> shift s p = Some (Inl TypeError)
       \<and> unshift s p items = Some (Inl TypeError)
       \<and> splice s p start deleteCount items = Some (Inl TypeError)
       \<and> spliceByValue s p v = Some (Inl TypeError)
       \<and> (split_path q = seg # pre @ k # post
            \<and> \<not> truthy (Path_walk (i_heap s) (inst_get s seg) pre)
            \<longrightarrow> get s q Undefined = Undefined)"
proof (intro conjI impI)
  show "push s p items = Some (Inl TypeError)"
    by (simp add: push_def missing array_at_def)
  show "pop s p = Some (Inl TypeError)"
    by (simp add: pop_def missing array_at_def)
  show "shift s p = Some (Inl TypeError)"
    by (simp add: shift_def missing array_at_def)
  show "unshift s p items = Some (Inl TypeError)"
    by (simp add: unshift_def missing array_at_def)
  show "splice s p start deleteCount items = Some (Inl TypeError)"
    by (simp add: splice_def missing array_at_def)
  show "spliceByValue s p v = Some (Inl TypeError)"
    by (simp add: spliceByValue_def missing length_of_def)
next
  assume "split_path q = seg # pre @ k # post
            \<and> \<not> truthy (Path_walk (i_heap s) (inst_get s seg) pre)"
  then show "get s q Undefined = Undefined"
    by (simp add: get_def Path_get_def Path_walk_missing)
qed

theorem mutators_throw_when_missing_witness:
  "push tourists_state ''missing.items'' [Num (Fin 1)] = Some (Inl TypeError)
   \<and> pop tourists_state ''missing.items'' = Some (Inl TypeError)
   \<and> shift tourists_state ''missing.items'' = Some (Inl TypeError)
   \<and> unshift tourists_state ''missing.items'' [Num (Fin 1)] = Some (Inl TypeError)
   \<and> splice tourists_state ''missing.items'' (Fin 0) (Fin 1) [] = Some (Inl TypeError)
   \<and> spliceByValue tourists_state ''missing.items'' (Num (Fin 1)) = Some (Inl TypeError)
   \<and> get tourists_state ''tourists.7.name'' Undefined = Undefined"
proof -
  have h1: "Path_get (i_heap tourists_state) (inst_get tourists_state) ''missing.items'' = Undefined"
    by code_simp
  have h2: "split_path ''tourists.7.name'' = ''tourists'' # [''7''] @ ''name'' # []"
    by code_simp
  have h3: "\<not> truthy (Path_walk (i_heap tourists_state) (inst_get tourists_state ''tourists'') [''7''])"
    by code_simp
  show ?thesis
    using mutators_throw_when_missing [OF h1, of "[Num (Fin 1)]" "Fin 0" "Fin 1" "Num (Fin 1)"
        "''tourists.7.name''" "''tourists''" "[''7'']" "''name''" "[]"]
      mutators_throw_when_missing [OF h1, of "[]" "Fin 0" "Fin 1" "Num (Fin 1)"
        "''tourists.7.name''" "''tourists''" "[''7'']" "''name''" "[]"] h2 h3
    by simp
qed

text \<open>
  C5 as stated fails: \<open>push\<close> on a path whose array does not exist throws instead of
  doing nothing.
\<close>

theorem push_missing_counterexample:
  "threw (push tourists_state ''missing.items'' [Num (Fin 1)])"
  by code_simp

section \<open>Public writes to read-only properties\<close>

lemma set_path_readonly: "hasReadOnlyEffect s p \<Longrightarrow> \<not> truthy rootv \<Longrightarrow> set_path s p v rootv = Some (Inr s)"
  by (simp add: set_path_def)

lemma frame_readOnly: "frame s s' \<Longrightarrow> hasReadOnlyEffect s' k = hasReadOnlyEffect s k"
  by (simp add: frame_def hasReadOnlyEffect_def hasPropertyEffect_def)

lemma alloc_info_readOnly: "alloc_info s nfo = (s', i) \<Longrightarrow> hasReadOnlyEffect s' k = hasReadOnlyEffect s k"
  by (auto simp: alloc_info_def hasReadOnlyEffect_def hasPropertyEffect_def)

lemma createObservedProperty_readOnly:
  "createObservedProperty s p m = Inr s' \<Longrightarrow> hasReadOnlyEffect s k \<Longrightarrow> hasReadOnlyEffect s' k"
  unfolding createObservedProperty_def Let_def
  by (auto split: prod.splits dest!: addPropertyEffect_readOnly [where k = k] simp: alloc_info_readOnly)

lemma add_arg_effects_readOnly:
  "add_arg_effects s as ty f i = Inr s' \<Longrightarrow> hasReadOnlyEffect s k \<Longrightarrow> hasReadOnlyEffect s' k"
proof (induction as arbitrary: s)
  case Nil
  then show ?case by simp
next
  case (Cons a as)
  then show ?case
    by (auto split: if_splits sum.splits dest!: addPropertyEffect_readOnly [where k = k])
qed

lemma createMethodEffect_readOnly:
  "createMethodEffect s sg ty f mi dyn = Inr s' \<Longrightarrow> hasReadOnlyEffect s k \<Longrightarrow> hasReadOnlyEffect s' k"
  unfolding createMethodEffect_def Let_def
  by (auto split: prod.splits sum.splits if_splits
      dest!: addPropertyEffect_readOnly [where k = k] add_arg_effects_readOnly [where k = k]
      simp: alloc_info_readOnly)

lemma createPropertyFromConfig_readOnly:
  assumes "createPropertyFromConfig s nm cfg = Inr s'"
  shows "(hasReadOnlyEffect s k \<longrightarrow> hasReadOnlyEffect s' k)
       \<and> (c_readOnly cfg \<or> c_computed cfg \<noteq> None \<longrightarrow> Path_root nm = nm \<longrightarrow> hasReadOnlyEffect s' nm)"
proof -
  obtain s1 where a: "(case c_computed cfg of
              Some sg \<Rightarrow> (if \<not> hasReadOnlyEffect s nm then createComputedProperty s nm sg else Inr s)
            | None \<Rightarrow> Inr s) = Inr s1"
    using assms by (auto simp: createPropertyFromConfig_def Let_def split: sum.splits)
  have m1: "hasReadOnlyEffect s j \<Longrightarrow> hasReadOnlyEffect s1 j" for j
    using a by (auto simp: createComputedProperty_def split: option.splits if_splits
        dest: createMethodEffect_readOnly)
  let ?ro = "if c_computed cfg \<noteq> None then True else c_readOnly cfg"
  obtain s2 where b: "(if ?ro \<and> \<not> hasReadOnlyEffect s1 nm
                 then createReadOnlyProperty s1 nm (c_computed cfg = None) else Inr s1) = Inr s2"
    using assms a by (auto simp: createPropertyFromConfig_def Let_def split: sum.splits)
  have m2: "hasReadOnlyEffect s1 j \<Longrightarrow> hasReadOnlyEffect s2 j" for j
    using b by (auto simp: createReadOnlyProperty_def split: if_splits
        dest!: addPropertyEffect_readOnly [where k = j])
  have r2: "?ro \<Longrightarrow> Path_root nm = nm \<Longrightarrow> hasReadOnlyEffect s2 nm"
    using b by (auto simp: createReadOnlyProperty_def split: if_splits
        dest!: addPropertyEffect_readOnly [where k = nm])
  have c: "(case c_observer cfg of Some ob \<Rightarrow> createObservedProperty s2 nm ob | None \<Rightarrow> Inr s2) = Inr s'"
    using assms a b by (auto simp: createPropertyFromConfig_def Let_def split: sum.splits)
  have m3: "hasReadOnlyEffect s2 j \<Longrightarrow> hasReadOnlyEffect s' j" for j
    using c by (auto split: option.splits dest: createObservedProperty_readOnly)
  show ?thesis
    using m1 m2 m3 r2 by auto
qed

lemma finalizeConfig_mono:
  "finalizeConfig s properties = Inr s' \<Longrightarrow> hasReadOnlyEffect s k \<Longrightarrow> hasReadOnlyEffect s' k"
proof (induction properties arbitrary: s)
  case Nil
  then show ?case by simp
next
  case (Cons pc properties)
  obtain n c where pc: "pc = (n, c)" by (cases pc)
  from Cons.prems pc obtain s1 where
    a: "createPropertyFromConfig s n c = Inr s1" and b: "finalizeConfig s1 properties = Inr s'"
    by (auto split: sum.splits)
  from createPropertyFromConfig_readOnly [OF a, of k] Cons.prems(2) have "hasReadOnlyEffect s1 k"
    by simp
  then show ?case
    by (rule Cons.IH [OF b])
qed

lemma finalizeConfig_readOnly:
  "finalizeConfig s properties = Inr s' \<Longrightarrow> (nm, cfg) \<in> set properties \<Longrightarrow>
     c_readOnly cfg \<or> c_computed cfg \<noteq> None \<Longrightarrow> Path_root nm = nm \<Longrightarrow> hasReadOnlyEffect s' nm"
proof (induction properties arbitrary: s)
  case Nil
  then show ?case by simp
next
  case (Cons pc properties)
  obtain n c where pc: "pc = (n, c)" by (cases pc)
  from Cons.prems(1) pc obtain s1 where
    a: "createPropertyFromConfig s n c = Inr s1" and b: "finalizeConfig s1 properties = Inr s'"
    by (auto split: sum.splits)
  show ?case
  proof (cases "(nm, cfg) = pc")
    case True
    with pc createPropertyFromConfig_readOnly [OF a, of nm] Cons.prems(3,4)
    have "hasReadOnlyEffect s1 nm" by auto
    then show ?thesis
      by (rule finalizeConfig_mono [OF b])
  next
    case False
    with Cons.prems(2) have "(nm, cfg) \<in> set properties" by auto
    then show ?thesis
      using Cons.IH [OF b] Cons.prems(3,4) by blast
  qed
qed

lemma is_ok_constructed: "is_ok r \<Longrightarrow> r = Inr (constructed r)"
  by (auto simp: is_ok_def constructed_def split: sum.splits)

text \<open>
  C4, as the code has it: for every property that the configuration declares
  \<open>readOnly\<close> or \<open>computed\<close> and whose name has no dot, on the constructed instance
  and on every instance later calls leave, a public \<open>set(name, value)\<close> without a
  \<open>root\<close> argument returns with the instance exactly as it was: no exception, no write
  to \<open>__data\<close>, nothing pending, no flush and no observer call. The guard of \<open>set\<close>
  is \<open>_hasReadOnlyEffect(path)\<close>, on the path itself.
\<close>

theorem set_readonly_noop:
  assumes built: "Store properties methods = Inr s0"
    and declared: "(nm, cfg) \<in> set properties"
    and readonly: "c_readOnly cfg \<or> c_computed cfg \<noteq> None"
    and simple: "Path_root nm = nm"
    and later: "frame s0 s"
  shows "set_path s nm v Undefined = Some (Inr s)"
proof -
  from built have "finalizeConfig (new_instance methods) properties = Inr s0"
    by (simp add: Store_def)
  from finalizeConfig_readOnly [OF this declared readonly simple]
  have "hasReadOnlyEffect s0 nm" .
  with later have "hasReadOnlyEffect s nm"
    by (simp add: frame_readOnly)
  then show ?thesis
    by (simp add: set_path_readonly)
qed


theorem set_readonly_noop_witness:
  "set_path readonly_state ''ro'' (Num (Fin 5)) Undefined = Some (Inr readonly_state)"
proof -
  let ?cfg = "plain_prop\<lparr>c_readOnly := True, c_observer := Some ''obs''\<rparr>"
  let ?r = "Store [(''ro'', ?cfg)] readonly_methods"
  have "is_ok ?r" by code_simp
  then have built: "?r = Inr (constructed ?r)"
    by (rule is_ok_constructed)
  have declared: "(''ro'', ?cfg) \<in> set [(''ro'', ?cfg)]" by simp
  have readonly: "c_readOnly ?cfg \<or> c_computed ?cfg \<noteq> None" by simp
  have simple: "Path_root ''ro'' = ''ro''" by (simp add: Path_root_def)
  have "returned readonly_ready" by code_simp
  then have "readonly_ready = Some (Inr readonly_state)"
    unfolding readonly_state_def by (rule returned_store_of)
  then have "setProperty (fst (alloc readonly_store (Obj []))) ''ro'' (snd (alloc readonly_store (Obj [])))
               = Some (Inr readonly_state)"
    by (simp add: readonly_ready_def split_beta)
  then have "frame (fst (alloc readonly_store (Obj []))) readonly_state"
    by (rule setProperty_frame)
  moreover have "frame readonly_store (fst (alloc readonly_store (Obj [])))"
    by (rule alloc_frame [where v = "snd (alloc readonly_store (Obj []))"]) simp
  moreover have "frame (constructed ?r) readonly_store"
    by (simp add: readonly_store_def started_def ready_def frame_def)
  ultimately have later: "frame (constructed ?r) readonly_state"
    using frame_trans by blast
  show ?thesis
    by (rule set_readonly_noop [OF built declared readonly simple later])
qed

text \<open>
  C4 as stated fails for a deep path under a read-only root: \<open>ro\<close> is read-only and
  holds an object, and \<open>set('ro.sub', 5)\<close> writes \<open>__data['ro.sub']\<close> and calls the
  observer of \<open>ro\<close>.
\<close>

theorem set_deep_readonly_counterexample:
  "hasReadOnlyEffect readonly_state ''ro''
   \<and> Path_root ''ro.sub'' = ''ro''
   \<and> returned (set_path readonly_state ''ro.sub'' (Num (Fin 5)) Undefined)
   \<and> pget (i_data readonly_state) ''ro.sub'' = Undefined
   \<and> pget (i_data (store_of (set_path readonly_state ''ro.sub'' (Num (Fin 5)) Undefined))) ''ro.sub''
       = Num (Fin 5)
   \<and> i_calls (store_of (set_path readonly_state ''ro.sub'' (Num (Fin 5)) Undefined))
       = i_calls readonly_state @ [(ObserverCall, ''obs'', [Num (Fin 5), Undefined, Str ''ro.sub''])]"
  by code_simp

section \<open>One dispatch per info and pass\<close>

lemma dispatched_infos_simps [simp]:
  "dispatched_infos [] = []"
  "dispatched_infos ((r, Some j, p) # ds) = j # dispatched_infos ds"
  "dispatched_infos ((r, None, p) # ds) = dispatched_infos ds"
  "dispatched_infos (xs @ ys) = dispatched_infos xs @ dispatched_infos ys"
  by (simp_all add: dispatched_infos_def List.map_filter_def)

lemma once_refl: "once rid s s []"
  by (simp add: once_def)

lemma once_trans: "once rid s t n1 \<Longrightarrow> once rid t u n2 \<Longrightarrow> once rid s u (n1 @ n2)"
  unfolding once_def by auto

lemma run_fxs_once: "run_fxs s fxs rid p old = Inr (s', r) \<Longrightarrow> \<exists>new. once rid s s' new"
proof (induction s fxs rid p old arbitrary: s' r rule: run_fxs.induct)
  case (1 s rid pr old)
  then show ?case using once_refl by auto
next
  case (2 s rest rid pr old)
  then show ?case using once_refl by auto
next
  case (3 s fx rest rid pr old)
  show ?case
  proof (cases "Path_matches (fx_path fx) pr
         \<and> (case fx_info fx of None \<Rightarrow> True | Some i \<Rightarrow> lastRun (i_infos s i) \<noteq> Some rid)")
    case False
    with 3 show ?thesis by auto
  next
    case True
    let ?sd = "s\<lparr>i_dispatched := i_dispatched s @ [(rid, fx_info fx, pr)]\<rparr>"
    from True "3.prems" obtain s1 s3 r3 where
      f: "run_fn ?sd (fx_fn fx) pr (pget (i_data s) pr) old (fx_info fx) = Inr s1"
      and g: "run_fxs (case fx_info fx of None \<Rightarrow> s1
                | Some i \<Rightarrow> s1\<lparr>i_infos := (i_infos s1)(i := (i_infos s1 i)\<lparr>lastRun := Some rid\<rparr>)\<rparr>)
               rest rid pr old = Inr (s3, r3)"
      and e: "s' = s3"
      by (auto simp: Let_def split: sum.splits)
    from f obtain i where i: "fx_info fx = Some i"
      by (cases "fx_info fx") (auto simp: run_fn_def)
    let ?s2 = "s1\<lparr>i_infos := (i_infos s1)(i := (i_infos s1 i)\<lparr>lastRun := Some rid\<rparr>)\<rparr>"
    from True i have notyet: "i \<notin> stamped s rid"
      by (simp add: stamped_def)
    from run_fn_same_infos [OF f] have si: "i_infos s1 = i_infos s"
      "i_dispatched s1 = i_dispatched s @ [(rid, Some i, pr)]"
      by (simp_all add: same_infos_def i)
    have st: "stamped ?s2 rid = stamped s rid \<union> {i}"
      by (auto simp: stamped_def si)
    have o1: "once rid s ?s2 [(rid, Some i, pr)]"
      using notyet si st by (simp add: once_def)
    from "3.IH"(1) [OF True f refl] g i obtain new where "once rid ?s2 s3 new"
      by auto
    with o1 e show ?thesis
      using once_trans by blast
  qed
qed

lemma run_props_once: "run_props s effects rid ps oldOf = Inr (s', r) \<Longrightarrow> \<exists>new. once rid s s' new"
proof (induction ps arbitrary: s s' r)
  case Nil
  then show ?case using once_refl by auto
next
  case (Cons p ps)
  from Cons.prems obtain s1 r1 r2 where
    a: "runEffectsForProperty s effects rid p (oldOf p) = Inr (s1, r1)"
    and b: "run_props s1 effects rid ps oldOf = Inr (s', r2)"
    by (auto split: sum.splits prod.splits)
  from a have "\<exists>new. once rid s s1 new"
    by (auto simp: runEffectsForProperty_def Let_def split: option.splits
        dest: run_fxs_once intro: once_refl)
  with Cons.IH [OF b] show ?case
    using once_trans by blast
qed

lemma add_arg_effects_infos: "add_arg_effects s as ty f i = Inr s' \<Longrightarrow> i_infos s' = i_infos s"
proof (induction as arbitrary: s)
  case Nil
  then show ?case by simp
next
  case (Cons a as)
  then show ?case
    by (auto split: if_splits sum.splits dest!: addPropertyEffect_infos)
qed

lemma createMethodEffect_never_run:
  "createMethodEffect s sg ty f mi dyn = Inr s' \<Longrightarrow> never_run s \<Longrightarrow> never_run s'"
  unfolding createMethodEffect_def Let_def alloc_info_def
  by (auto split: prod.splits sum.splits if_splits
      dest!: addPropertyEffect_infos add_arg_effects_infos simp: never_run_def)

lemma createObservedProperty_never_run:
  "createObservedProperty s p m = Inr s' \<Longrightarrow> never_run s \<Longrightarrow> never_run s'"
  unfolding createObservedProperty_def Let_def alloc_info_def
  by (auto split: prod.splits dest!: addPropertyEffect_infos simp: never_run_def)

lemma createPropertyFromConfig_never_run:
  "createPropertyFromConfig s nm cfg = Inr s' \<Longrightarrow> never_run s \<Longrightarrow> never_run s'"
  unfolding createPropertyFromConfig_def Let_def createComputedProperty_def createReadOnlyProperty_def
  by (auto split: option.splits sum.splits if_splits
      dest!: createMethodEffect_never_run createObservedProperty_never_run
      dest: addPropertyEffect_infos simp: never_run_def)

lemma finalizeConfig_never_run:
  "finalizeConfig s properties = Inr s' \<Longrightarrow> never_run s \<Longrightarrow> never_run s'"
proof (induction properties arbitrary: s)
  case Nil
  then show ?case by simp
next
  case (Cons pc properties)
  then show ?case
    by (cases pc) (auto split: sum.splits dest: createPropertyFromConfig_never_run)
qed

lemma Store_never_run: "Store properties methods = Inr s \<Longrightarrow> never_run s"
  unfolding Store_def
  by (erule finalizeConfig_never_run) (simp add: never_run_def new_instance_def)

lemma is_ok_projr: "is_ok r \<Longrightarrow> r = Inr (projr r)"
  by (auto simp: is_ok_def split: sum.splits)

text \<open>
  When no callback writes to the instance (user methods as functions of their argument
  values): in one pass of the dispatcher (one call of \<open>runEffects\<close>, whose run id is the
  value of \<open>effectUid\<close> at the call) that returns, started on an instance whose
  \<open>lastRun\<close> stamps are all older than \<open>effectUid\<close>, the dispatches made are appended
  to the log with that run id, no info block is dispatched twice, whatever the number of
  changed properties that trigger it, and every dispatched info ends stamped with the
  run id.
\<close>

theorem runEffects_dispatch_once:
  assumes fresh: "\<forall>j. case lastRun (i_infos s j) of None \<Rightarrow> True | Some n \<Rightarrow> n < effectUid s"
    and run: "runEffects s ty prs oldOf = Inr (s', r)"
  shows "\<exists>new. i_dispatched s' = i_dispatched s @ new
           \<and> (\<forall>d\<in>set new. fst d = effectUid s)
           \<and> distinct (dispatched_infos new)
           \<and> (\<forall>j\<in>set (dispatched_infos new). lastRun (i_infos s' j) = Some (effectUid s))"
proof (cases "effects_of s ty")
  case None
  with run show ?thesis by (simp add: runEffects_def)
next
  case (Some effects)
  let ?s0 = "s\<lparr>effectUid := Suc (effectUid s)\<rparr>"
  from run Some have "run_props ?s0 effects (effectUid s)
        (case prs of None \<Rightarrow> [] | Some ps \<Rightarrow> map fst ps) oldOf = Inr (s', r)"
    by (simp add: runEffects_def Let_def)
  from run_props_once [OF this] obtain new where o: "once (effectUid s) ?s0 s' new"
    by blast
  have "stamped ?s0 (effectUid s) = {}"
  proof -
    have "lastRun (i_infos s j) \<noteq> Some (effectUid s)" for j
      using fresh [rule_format, of j] by (auto split: option.splits)
    then show ?thesis by (simp add: stamped_def)
  qed
  with o show ?thesis
    by (auto simp: once_def stamped_def)
qed


theorem runEffects_dispatch_once_witness:
  "(\<exists>new. i_dispatched (fst (projr (runEffects diamond_store COMPUTE
               (Some [(''a'', Num (Fin 1)), (''b'', Num (Fin 2))]) (\<lambda>p. Undefined))))
             = i_dispatched diamond_store @ new
           \<and> (\<forall>d\<in>set new. fst d = effectUid diamond_store)
           \<and> distinct (dispatched_infos new)
           \<and> (\<forall>j\<in>set (dispatched_infos new).
                 lastRun (i_infos (fst (projr (runEffects diamond_store COMPUTE
                   (Some [(''a'', Num (Fin 1)), (''b'', Num (Fin 2))]) (\<lambda>p. Undefined)))) j)
                 = Some (effectUid diamond_store)))
   \<and> i_dispatched (fst (projr (runEffects diamond_store COMPUTE
               (Some [(''a'', Num (Fin 1)), (''b'', Num (Fin 2))]) (\<lambda>p. Undefined))))
       = [(0, Some 0, ''a''), (0, Some 2, ''a'')]"
proof -
  let ?R = "runEffects diamond_store COMPUTE (Some [(''a'', Num (Fin 1)), (''b'', Num (Fin 2))])
              (\<lambda>p. Undefined)"
  have "is_ok (Store diamond_config diamond_methods)" by code_simp
  then have "never_run (constructed (Store diamond_config diamond_methods))"
    using Store_never_run is_ok_constructed by blast
  then have fresh: "\<forall>j. case lastRun (i_infos diamond_store j) of None \<Rightarrow> True
                                                              | Some n \<Rightarrow> n < effectUid diamond_store"
    by (simp add: never_run_def diamond_store_def started_def ready_def)
  have "is_ok ?R" by code_simp
  then have "?R = Inr (projr ?R)" by (rule is_ok_projr)
  then have run: "?R = Inr (fst (projr ?R), snd (projr ?R))" by simp
  have log: "i_dispatched (fst (projr ?R)) = [(0, Some 0, ''a''), (0, Some 2, ''a'')]"
    by code_simp
  show ?thesis
    using runEffects_dispatch_once [OF fresh run] log by blast
qed

section \<open>Relations kept by the dispatcher\<close>




















section \<open>Flushing a quiescent instance\<close>










section \<open>Old values across the passes of a flush\<close>

lemma setPendingProperty_base_old:
  assumes "setPendingProperty_base s p v = Inr (s', True)"
    and "i_dataPending s = Some pd" and "i_dataOld s = Some ol"
  shows "i_dataOld s' = Some (if pin p ol then ol else pset ol p (pget (i_data s) p))"
  using assms
  by (auto simp: setPendingProperty_base_def Let_def split: if_splits)

text \<open>
  C3 on the diamond configuration: \<open>set('a', 1)\<close> on an instance whose \<open>__data.q\<close>
  is \<open>undefined\<close>. The computed property \<open>q\<close> is written in the first pass of the
  flush (1) and again in the second (11); its observer is called once, with the new
  value 11 and the old value 1, the value the first pass wrote, not the \<open>undefined\<close>
  that \<open>__data.q\<close> held at the first write and at the start of the cycle.
\<close>

theorem old_value_overwritten:
  "pget (i_data diamond_store) ''q'' = Undefined
   \<and> returned (set_path diamond_store ''a'' (Num (Fin 1)) Undefined)
   \<and> pget (i_data (store_of (set_path diamond_store ''a'' (Num (Fin 1)) Undefined))) ''q'' = Num (Fin 11)
   \<and> i_calls (store_of (set_path diamond_store ''a'' (Num (Fin 1)) Undefined))
       = [(MethodCall, ''sum'', [Num (Fin 1), Undefined]),
          (MethodCall, ''ten'', [Num (Fin 1)]),
          (MethodCall, ''sum'', [Num (Fin 1), Num (Fin 10)]),
          (ObserverCall, ''obs'', [Num (Fin 11), Num (Fin 1), Str ''q''])]"
  by code_simp

section \<open>The compute loop\<close>















section \<open>The call log through a change cycle\<close>


lemma calls_grow_new: "calls_grow s s' \<Longrightarrow> i_calls s' = i_calls s @ new_calls s s'"
  unfolding calls_grow_def new_calls_def
  by (metis append_take_drop_id)



















section \<open>The bags of the compute loop\<close>








section \<open>An observer of a changed property is called\<close>

























section \<open>A write that returns\<close>





















section \<open>A write on the cyclic configuration\<close>









section \<open>Assigning \<open>null\<close>\<close>




section \<open>Change detection, end to end\<close>




section \<open>Splice notification, end to end\<close>

























section \<open>A callback that writes to the instance\<close>

lemma runMethodEffect_act_quiet:
  "runMethodEffect_act quiet s p v old nfo = Some (Inr (runMethodEffect s p v old nfo))"
  by (simp add: runMethodEffect_act_def runMethodEffect_def quiet_def split_beta
      split: option.splits)

lemma run_fn_act_quiet: "run_fn_act quiet s f p v old io = Some (run_fn s f p v old io)"
  by (simp add: run_fn_act_def run_fn_def runObserverEffect_act_def runObserverEffect_def
      runMethodObserverEffect_act_def runMethodObserverEffect_def runComputedEffect_act_def
      runComputedEffect_def runMethodEffect_act_quiet quiet_def split_beta
      split: option.splits effect_fn.splits)

lemma run_fxs_act_quiet: "run_fxs_act quiet s fxs rid p old = Some (run_fxs s fxs rid p old)"
proof (induction s fxs rid p old rule: run_fxs.induct)
  case (1 s rid pr old)
  then show ?case by simp
next
  case (2 s rest rid pr old)
  then show ?case by simp
next
  case (3 s fx rest rid pr old)
  then show ?case
    by (simp add: run_fn_act_quiet Let_def split: sum.splits)
qed

lemma run_props_act_quiet:
  "run_props_act quiet s effects rid ps oldOf = Some (run_props s effects rid ps oldOf)"
proof (induction ps arbitrary: s)
  case Nil
  then show ?case by simp
next
  case (Cons p ps)
  then show ?case
    by (simp add: runEffectsForProperty_act_def runEffectsForProperty_def run_fxs_act_quiet
        Let_def split: option.splits sum.splits)
qed

lemma runEffects_act_quiet:
  "runEffects_act quiet s ty prs oldOf = Some (runEffects s ty prs oldOf)"
  by (simp add: runEffects_act_def runEffects_def run_props_act_quiet Let_def split: option.splits)

text \<open>
  C9 does not hold of the code when a callback writes to the instance. On
  \<open>{q: {computed: 'f(a, b)'}, r: {computed: 'g(c)'}}\<close> with \<open>g\<close> calling
  \<open>this.set('a', 9)\<close>, after \<open>ready()\<close>, the first compute pass of the flush of
  \<open>setProperties({a: 1, c: 1, b: 1})\<close> has the run id \<open>0\<close>. It dispatches the effect
  of \<open>f\<close> (info \<open>0\<close>) for \<open>a\<close> and stamps it \<open>0\<close>, then the effect of \<open>g\<close>
  (info \<open>1\<close>) for \<open>c\<close>; the \<open>set\<close> in \<open>g\<close> flushes at once, its compute pass
  takes the run id \<open>1\<close>, dispatches \<open>f\<close> for \<open>a\<close> and stamps the info of \<open>f\<close> with
  \<open>1\<close>; back in pass \<open>0\<close> the stamp of \<open>f\<close> is no longer \<open>0\<close>, and \<open>f\<close> is
  dispatched again for \<open>b\<close>: twice in the one pass (\<open>g\<close> is called once, \<open>f\<close> three
  times in all).
\<close>

theorem reentrant_dispatch_twice:
  "is_ok (Store reentrant_config reentrant_methods)
   \<and> setProperties_loop reentrant_store [(''a'', Num (Fin 1)), (''c'', Num (Fin 1)), (''b'', Num (Fin 1))]
       = Inr reentrant_pending
   \<and> i_dataPending reentrant_pending
       = Some [(''a'', Num (Fin 1)), (''c'', Num (Fin 1)), (''b'', Num (Fin 1))]
   \<and> i_dataInitialized reentrant_pending \<and> \<not> i_asyncEffects reentrant_pending
   \<and> effectUid reentrant_flushing = 0
   \<and> i_dispatched reentrant_flushing = []
   \<and> methodName (i_infos reentrant_flushing 0) = ''f''
   \<and> methodName (i_infos reentrant_flushing 1) = ''g''
   \<and> lastRun (i_infos reentrant_flushing 0) = None
   \<and> lastRun (i_infos reentrant_flushing 1) = None
   \<and> returned reentrant_pass
   \<and> i_dispatched (passed reentrant_pass)
       = [(0, Some 0, ''a''), (0, Some 1, ''c''), (1, Some 0, ''a''), (0, Some 0, ''b'')]
   \<and> dispatched_infos (filter (\<lambda>d. fst d = 0) (i_dispatched (passed reentrant_pass))) = [0, 1, 0]
   \<and> \<not> distinct (dispatched_infos (filter (\<lambda>d. fst d = 0) (i_dispatched (passed reentrant_pass))))
   \<and> map (\<lambda>c. fst (snd c)) (i_calls (passed reentrant_pass)) = [''f'', ''g'', ''f'', ''f'']"
proof -
  have "is_ok (setProperties_loop reentrant_store
                 [(''a'', Num (Fin 1)), (''c'', Num (Fin 1)), (''b'', Num (Fin 1))])"
    by code_simp
  then have a: "setProperties_loop reentrant_store
                  [(''a'', Num (Fin 1)), (''c'', Num (Fin 1)), (''b'', Num (Fin 1))]
                = Inr reentrant_pending"
    unfolding reentrant_pending_def by (rule is_ok_projr)
  have b: "is_ok (Store reentrant_config reentrant_methods)
   \<and> i_dataPending reentrant_pending
       = Some [(''a'', Num (Fin 1)), (''c'', Num (Fin 1)), (''b'', Num (Fin 1))]
   \<and> i_dataInitialized reentrant_pending \<and> \<not> i_asyncEffects reentrant_pending
   \<and> effectUid reentrant_flushing = 0
   \<and> i_dispatched reentrant_flushing = []
   \<and> methodName (i_infos reentrant_flushing 0) = ''f''
   \<and> methodName (i_infos reentrant_flushing 1) = ''g''
   \<and> lastRun (i_infos reentrant_flushing 0) = None
   \<and> lastRun (i_infos reentrant_flushing 1) = None"
    by code_simp
  have c: "returned reentrant_pass
   \<and> i_dispatched (passed reentrant_pass)
       = [(0, Some 0, ''a''), (0, Some 1, ''c''), (1, Some 0, ''a''), (0, Some 0, ''b'')]
   \<and> map (\<lambda>c. fst (snd c)) (i_calls (passed reentrant_pass)) = [''f'', ''g'', ''f'', ''f'']"
    by code_simp
  then have d: "dispatched_infos (filter (\<lambda>d. fst d = 0) (i_dispatched (passed reentrant_pass)))
                  = [0, 1, 0]"
    by (simp add: dispatched_infos_def List.map_filter_simps)
  from a b c d show ?thesis by simp
qed

end
